theory Spec2Isabelle
  imports Complex_Main "HOL-Library.Word" "HOL-Library.Multiset"
begin

unbundle bit_operations_syntax

section \<open>JavaScript strings\<close>

text \<open>
  A JavaScript string is a sequence of code units. The model reads a \<^typ>\<open>char\<close> as a code
  unit below 256 (the Latin-1 range), where \<^verbatim>\<open>toLowerCase\<close> works unit by unit and the
  class \<^verbatim>\<open>\s\<close> is the seven units 9 to 13, 32 and 160. Numbers are IEEE doubles in
  the program. The counts, scores and metrics are read as real numbers, without rounding;
  the cosine similarity is read a second time in binary64, with rounding, overflow and NaN.
\<close>

definition isWhiteSpace :: "char \<Rightarrow> bool" where
  "isWhiteSpace c = (of_char c \<in> {9, 10, 11, 12, 13, 32, 160 :: nat})"

definition toLowerChar :: "char \<Rightarrow> char" where
  "toLowerChar c =
     (let n = of_char c :: nat
      in if (65 \<le> n \<and> n \<le> 90) \<or> (192 \<le> n \<and> n \<le> 214) \<or> (216 \<le> n \<and> n \<le> 222)
         then char_of (n + 32) else c)"

definition toLowerCase :: "string \<Rightarrow> string" where
  "toLowerCase s = map toLowerChar s"

text \<open>
  \<^verbatim>\<open>s.split(/\s+/)\<close>: the pieces between maximal runs of white space. A run at the start
  or the end leaves an empty piece there, and the empty string splits into one empty
  piece, so the result is never empty. \<open>inRun\<close> says that the scan stands inside a run
  whose piece has been emitted already; \<open>cur\<close> is the current piece, reversed.
\<close>

fun split_scan :: "bool \<Rightarrow> string \<Rightarrow> string \<Rightarrow> string list" where
  "split_scan inRun cur [] = [rev cur]"
| "split_scan inRun cur (c # cs) =
     (if isWhiteSpace c
      then (if inRun then split_scan True cur cs else rev cur # split_scan True [] cs)
      else split_scan False (c # cur) cs)"

definition split_whitespace :: "string \<Rightarrow> string list" where
  "split_whitespace s = split_scan False [] s"

text \<open>\<^verbatim>\<open>new Set(text.toLowerCase().split(/\s+/))\<close>, the token set used by the reranker, the
  extractive answer and the four metrics.\<close>

definition wordSet :: "string \<Rightarrow> string set" where
  "wordSet s = set (split_whitespace (toLowerCase s))"

text \<open>\<^verbatim>\<open>a || b\<close> on an optional number: an absent value and 0 are both falsy.\<close>

definition or_default :: "'a::zero option \<Rightarrow> 'a \<Rightarrow> 'a" where
  "or_default v d = (case v of None \<Rightarrow> d | Some x \<Rightarrow> if x = 0 then d else x)"

text \<open>\<^verbatim>\<open>xs.slice(0, k)\<close> for an integer \<open>k\<close>: a negative end counts from the end of the array.\<close>

definition slice0 :: "int \<Rightarrow> 'a list \<Rightarrow> 'a list" where
  "slice0 k xs = (if k < 0 then take (nat (int (length xs) + k)) xs else take (nat k) xs)"

section \<open>The hash embedding\<close>

text \<open>
  \<^verbatim>\<open>
  let hash = 0;
  for (let i = 0; i < word.length; i++) {
    hash = ((hash << 5) - hash) + word.charCodeAt(i);
    hash = hash & hash;
  }
  const index = Math.abs(hash) % 384;
  embedding[index] += 1;
  \<close>
  \<^verbatim>\<open>hash & hash\<close> brings the sum back to a signed 32-bit integer after every step, so the
  loop is arithmetic on \<^typ>\<open>32 word\<close>; \<^verbatim>\<open>Math.abs\<close> reads the word as a signed number.
\<close>

definition hashStep :: "32 word \<Rightarrow> char \<Rightarrow> 32 word" where
  "hashStep hash c = (push_bit 5 hash - hash) + of_nat (of_char c)"

definition wordHash :: "string \<Rightarrow> 32 word" where
  "wordHash word = foldl hashStep 0 word"

definition wordIndex :: "string \<Rightarrow> nat" where
  "wordIndex word = nat \<bar>sint (wordHash word)\<bar> mod 384"

definition bump :: "real \<Rightarrow> nat \<Rightarrow> real list \<Rightarrow> real list" where
  "bump delta index embedding = embedding[index := embedding ! index + delta]"

definition addWords :: "string list \<Rightarrow> real list \<Rightarrow> real list" where
  "addWords words embedding = fold (\<lambda>word. bump 1 (wordIndex word)) words embedding"

text \<open>
  \<^verbatim>\<open>
  for (let i = 0; i < Math.min(text.length, 100); i++) {
    const charCode = text.charCodeAt(i);
    const index = (charCode * i) % 384;
    embedding[index] += 0.1;
  }
  \<close>
\<close>

definition addChars :: "string \<Rightarrow> real list \<Rightarrow> real list" where
  "addChars text embedding =
     fold (\<lambda>i. bump (1 / 10) ((of_char (text ! i) * i) mod 384))
          [0..<min (length text) 100] embedding"

text \<open>\<^verbatim>\<open>Math.sqrt(embedding.reduce((sum, val) => sum + val * val, 0))\<close>\<close>

definition magnitude :: "real list \<Rightarrow> real" where
  "magnitude embedding = sqrt (foldl (\<lambda>sum val. sum + val * val) 0 embedding)"

section \<open>The vector store\<close>

record chunk_metadata =
  semanticChunk :: bool

record vector_entry =
  id :: string
  documentId :: string
  chunkId :: nat
  content :: string
  metadata :: "chunk_metadata option"
  type :: string
  embedding :: "real list"
  embeddingModel :: string

record search_result = vector_entry +
  similarity :: real

record document_record =
  doc_id :: string
  chunksCount :: nat

text \<open>
  A value that stands where an embedding is expected: an array of numbers, a value that is
  no array (and not iterable, such as a number), or a falsy value (\<^verbatim>\<open>undefined\<close>,
  \<^verbatim>\<open>null\<close>, 0).
\<close>

datatype embedding_value = Missing | NotArray | Vec "real list"

text \<open>
  The HuggingFace client, present when a key is configured. \<open>featureExtraction\<close> gives
  \<^verbatim>\<open>response[0]\<close> for a text, \<open>textGeneration\<close> gives \<^verbatim>\<open>response.generated_text\<close> for a
  model name and a prompt (the empty string for a falsy one); both give \<open>None\<close> when the
  call throws.
\<close>

record HfInference =
  featureExtraction :: "string \<Rightarrow> embedding_value option"
  textGeneration :: "string \<Rightarrow> string \<Rightarrow> string option"

text \<open>
  The two maps of the store are kept in iteration order (insertion order of the keys), as
  a JavaScript \<^verbatim>\<open>Map\<close> iterates them. Of a document record the claims need the id and
  the number of chunks; its metadata and its time stamp are left out.
\<close>

record VectorStore =
  vectors :: "(string \<times> vector_entry) list"
  documents :: "(string \<times> document_record) list"
  hf :: "HfInference option"

text \<open>
  \<^verbatim>\<open>VectorStore.simpleHashEmbedding(text)\<close>. The empty string is falsy, so the guard at the
  top replaces it by \<^verbatim>\<open>'default text'\<close> before anything is counted. \<open>hashCounts\<close> is
  the array as it stands before the normalisation. The method reads no field of \<open>this\<close>.
  \<^verbatim>\<open>
  if (!text || typeof text !== 'string') text = 'default text';
  const words = text.toLowerCase().split(/\s+/).filter(word => word.length > 2);
  const embedding = new Array(384).fill(0);
  ...
  if (magnitude === 0) embedding[0] = 1;
  else for (let i = 0; i < embedding.length; i++) embedding[i] = embedding[i] / magnitude;
  \<close>
\<close>

definition VectorStore_hashCounts :: "string \<Rightarrow> real list" where
  "VectorStore_hashCounts text0 =
     (let text = (if text0 = [] then ''default text'' else text0);
          words = filter (\<lambda>word. length word > 2) (split_whitespace (toLowerCase text))
      in addChars text (addWords words (replicate 384 0)))"

definition VectorStore_simpleHashEmbedding :: "VectorStore \<Rightarrow> string \<Rightarrow> real list" where
  "VectorStore_simpleHashEmbedding this text =
     (let embedding = VectorStore_hashCounts text
      in if magnitude embedding = 0 then embedding[0 := 1]
         else map (\<lambda>val. val / magnitude embedding) embedding)"

section \<open>Cosine similarity\<close>

text \<open>\<^verbatim>\<open>while (normalizedVec.length < maxLength) normalizedVec.push(0);\<close>\<close>

function pad_zeros :: "real list \<Rightarrow> nat \<Rightarrow> real list" where
  "pad_zeros v maxLength = (if length v < maxLength then pad_zeros (v @ [0]) maxLength else v)"
  by pat_completeness auto
termination
  by (relation "measure (\<lambda>(v, n). n - length v)") auto

declare pad_zeros.simps [simp del]

text \<open>
  \<^verbatim>\<open>
  for (let i = 0; i < maxLength; i++) {
    dotProduct += normalizedVec1[i] * normalizedVec2[i];
    norm1 += normalizedVec1[i] * normalizedVec1[i];
    norm2 += normalizedVec2[i] * normalizedVec2[i];
  }
  \<close>
\<close>

definition cosine_loop :: "real list \<Rightarrow> real list \<Rightarrow> nat \<Rightarrow> real \<times> real \<times> real" where
  "cosine_loop v1 v2 maxLength =
     fold (\<lambda>i (dotProduct, norm1, norm2).
             (dotProduct + v1 ! i * v2 ! i, norm1 + v1 ! i * v1 ! i, norm2 + v2 ! i * v2 ! i))
          [0..<maxLength] (0, 0, 0)"

text \<open>A falsy argument and an argument that is no array both give 0, before any arithmetic.\<close>

fun calculateCosineSimilarity :: "embedding_value \<Rightarrow> embedding_value \<Rightarrow> real" where
  "calculateCosineSimilarity (Vec vec1) (Vec vec2) =
     (let maxLength = max (length vec1) (length vec2);
          normalizedVec1 = pad_zeros vec1 maxLength;
          normalizedVec2 = pad_zeros vec2 maxLength;
          (dotProduct, norm1, norm2) = cosine_loop normalizedVec1 normalizedVec2 maxLength;
          denominator = sqrt norm1 * sqrt norm2
      in if denominator = 0 then 0 else dotProduct / denominator)"
| "calculateCosineSimilarity _ _ = 0"

section \<open>Cosine similarity in binary64\<close>

text \<open>
  The definitions above read the arithmetic of the source exactly, over the reals; the
  statements on searching and ranking hold for whatever score the entries get. The
  definitions below read \<^verbatim>\<open>calculateCosineSimilarity\<close> with the arithmetic JavaScript performs.
\<close>

text \<open>
  A JavaScript number is an IEEE 754 binary64 value: a finite real, an infinity with its
  sign, or NaN. The two zeros are identified (\<^verbatim>\<open>-0 === 0\<close>), which loses only the sign of a
  quotient by zero.
\<close>

datatype f64 = Finite real | Infinity bool | NaN

text \<open>Rounding to the nearest integer, a tie going to the even one.\<close>

definition round_half_even :: "real \<Rightarrow> int" where
  "round_half_even x =
     (let f = \<lfloor>x\<rfloor>; d = x - of_int f
      in if d < 1 / 2 then f else if 1 / 2 < d then f + 1 else if even f then f else f + 1)"

text \<open>
  The binary64 value of a real: 53 significant bits, the exponent no lower than -1022 (below
  it the subnormal numbers, multiples of \<open>2\<^sup>-\<^sup>1\<^sup>0\<^sup>7\<^sup>4\<close>), and an infinity when the rounded
  magnitude reaches \<open>2\<^sup>1\<^sup>0\<^sup>2\<^sup>4\<close>.
\<close>

definition round64 :: "real \<Rightarrow> f64" where
  "round64 x =
     (if x = 0 then Finite 0
      else let e = max \<lfloor>log 2 \<bar>x\<bar>\<rfloor> (- 1022);
               q = 2 powr (of_int e - 52);
               y = of_int (round_half_even (\<bar>x\<bar> / q)) * q
           in if 2 powr 1024 \<le> y then Infinity (0 < x) else Finite (sgn x * y))"

text \<open>\<^verbatim>\<open>x + y\<close>, \<^verbatim>\<open>x * y\<close>, \<^verbatim>\<open>x / y\<close> and \<^verbatim>\<open>Math.sqrt(x)\<close> on numbers.\<close>

fun f64_add :: "f64 \<Rightarrow> f64 \<Rightarrow> f64" where
  "f64_add (Finite x) (Finite y) = round64 (x + y)"
| "f64_add (Infinity s) (Infinity t) = (if s = t then Infinity s else NaN)"
| "f64_add (Infinity s) (Finite y) = Infinity s"
| "f64_add (Finite x) (Infinity t) = Infinity t"
| "f64_add _ _ = NaN"

fun f64_mul :: "f64 \<Rightarrow> f64 \<Rightarrow> f64" where
  "f64_mul (Finite x) (Finite y) = round64 (x * y)"
| "f64_mul (Infinity s) (Infinity t) = Infinity (s = t)"
| "f64_mul (Infinity s) (Finite y) = (if y = 0 then NaN else Infinity (s = (0 < y)))"
| "f64_mul (Finite x) (Infinity t) = (if x = 0 then NaN else Infinity (t = (0 < x)))"
| "f64_mul _ _ = NaN"

fun f64_div :: "f64 \<Rightarrow> f64 \<Rightarrow> f64" where
  "f64_div (Finite x) (Finite y) =
     (if y = 0 then (if x = 0 then NaN else Infinity (0 < x)) else round64 (x / y))"
| "f64_div (Finite x) (Infinity t) = Finite 0"
| "f64_div (Infinity s) (Finite y) = Infinity (s = (0 \<le> y))"
| "f64_div _ _ = NaN"

fun f64_sqrt :: "f64 \<Rightarrow> f64" where
  "f64_sqrt (Finite x) = (if x < 0 then NaN else round64 (sqrt x))"
| "f64_sqrt (Infinity s) = (if s then Infinity True else NaN)"
| "f64_sqrt NaN = NaN"

text \<open>
  \<^verbatim>\<open>calculateCosineSimilarity\<close> with the arithmetic of numbers: the same padding, the same
  loop and the same test \<^verbatim>\<open>denominator === 0\<close>, which NaN fails.
\<close>

datatype embedding64 = Missing64 | NotArray64 | Vec64 "f64 list"

function pad_zeros64 :: "f64 list \<Rightarrow> nat \<Rightarrow> f64 list" where
  "pad_zeros64 v maxLength =
     (if length v < maxLength then pad_zeros64 (v @ [Finite 0]) maxLength else v)"
  by pat_completeness auto
termination
  by (relation "measure (\<lambda>(v, n). n - length v)") auto

declare pad_zeros64.simps [simp del]

definition cosine_loop64 :: "f64 list \<Rightarrow> f64 list \<Rightarrow> nat \<Rightarrow> f64 \<times> f64 \<times> f64" where
  "cosine_loop64 v1 v2 maxLength =
     fold (\<lambda>i (dotProduct, norm1, norm2).
             (f64_add dotProduct (f64_mul (v1 ! i) (v2 ! i)),
              f64_add norm1 (f64_mul (v1 ! i) (v1 ! i)),
              f64_add norm2 (f64_mul (v2 ! i) (v2 ! i))))
          [0..<maxLength] (Finite 0, Finite 0, Finite 0)"

fun calculateCosineSimilarity64 :: "embedding64 \<Rightarrow> embedding64 \<Rightarrow> f64" where
  "calculateCosineSimilarity64 (Vec64 vec1) (Vec64 vec2) =
     (let maxLength = max (length vec1) (length vec2);
          normalizedVec1 = pad_zeros64 vec1 maxLength;
          normalizedVec2 = pad_zeros64 vec2 maxLength;
          (dotProduct, norm1, norm2) = cosine_loop64 normalizedVec1 normalizedVec2 maxLength;
          denominator = f64_mul (f64_sqrt norm1) (f64_sqrt norm2)
      in if denominator = Finite 0 then Finite 0 else f64_div dotProduct denominator)"
| "calculateCosineSimilarity64 _ _ = Finite 0"

section \<open>Similarity search\<close>

record search_filters =
  minSimilarity :: "real option"
  topK :: "int option"

text \<open>\<^verbatim>\<open>{ ...vector, similarity }\<close>\<close>

definition with_similarity :: "vector_entry \<Rightarrow> real \<Rightarrow> search_result" where
  "with_similarity vector sim = vector_entry.extend vector (search_result.fields sim)"

text \<open>
  The scan of \<^verbatim>\<open>searchWithEmbedding\<close>: one pass over the map in iteration order, skipping
  the entries of other documents when a list of ids is given, pushing every entry that
  reaches the threshold together with its similarity.
\<close>

fun scan_vectors ::
  "embedding_value \<Rightarrow> string list option \<Rightarrow> real \<Rightarrow> (string \<times> vector_entry) list \<Rightarrow>
   search_result list \<Rightarrow> search_result list" where
  "scan_vectors queryEmbedding documentIds minSim [] results = results"
| "scan_vectors queryEmbedding documentIds minSim ((key, vector) # rest) results =
     (if (case documentIds of None \<Rightarrow> False | Some ids \<Rightarrow> documentId vector \<notin> set ids)
      then scan_vectors queryEmbedding documentIds minSim rest results
      else let sim = calculateCosineSimilarity queryEmbedding (Vec (embedding vector))
           in if sim \<ge> minSim
              then scan_vectors queryEmbedding documentIds minSim rest
                     (results @ [with_similarity vector sim])
              else scan_vectors queryEmbedding documentIds minSim rest results)"

text \<open>
  \<^verbatim>\<open>results.sort((a, b) => b.similarity - a.similarity).slice(0, topK)\<close>. The sort of
  an array is stable, and the comparator orders by descending similarity, so the sorted
  array is the stable sort on the negated similarity.
\<close>

definition searchWithEmbedding ::
  "VectorStore \<Rightarrow> embedding_value \<Rightarrow> string list option \<Rightarrow> search_filters \<Rightarrow> search_result list" where
  "searchWithEmbedding this queryEmbedding documentIds filters =
     (let minSim = or_default (minSimilarity filters) (1 / 10);
          k = or_default (topK filters) 10;
          results = scan_vectors queryEmbedding documentIds minSim (vectors this) []
      in slice0 k (sort_key (\<lambda>r. - similarity r) results))"

section \<open>Ingestion\<close>

record chunk =
  chunk_content :: string
  chunk_metadata :: "chunk_metadata option"
  chunk_type :: string
  chunk_embedding :: embedding_value
  chunk_embeddingModel :: "string option"

text \<open>
  \<^verbatim>\<open>VectorStore.generateEmbedding(text)\<close>: the provider when there is one, the hash embedding
  when there is none or when the call throws. A provider value that is no array goes
  through \<^verbatim>\<open>Array.from(embedding || [])\<close>, which is the empty array for a falsy or
  non-iterable value.
\<close>

definition generateEmbedding :: "VectorStore \<Rightarrow> string \<Rightarrow> real list" where
  "generateEmbedding this text =
     (case hf this of
        None \<Rightarrow> VectorStore_simpleHashEmbedding this text
      | Some client \<Rightarrow>
          (case featureExtraction client text of
             None \<Rightarrow> VectorStore_simpleHashEmbedding this text
           | Some (Vec v) \<Rightarrow> v
           | Some _ \<Rightarrow> []))"

text \<open>\<^verbatim>\<open>map.set(key, value)\<close>: an existing key keeps its place, a new key goes to the end.\<close>

fun map_set :: "'k \<Rightarrow> 'v \<Rightarrow> ('k \<times> 'v) list \<Rightarrow> ('k \<times> 'v) list" where
  "map_set key v [] = [(key, v)]"
| "map_set key v ((k, w) # rest) = (if k = key then (k, v) # rest else (k, w) # map_set key v rest)"

fun digits :: "nat \<Rightarrow> string" where
  "digits n = (if n < 10 then [char_of (48 + n)] else digits (n div 10) @ [char_of (48 + n mod 10)])"

declare digits.simps [simp del]

text \<open>
  One turn of the loop of \<^verbatim>\<open>storeDocument\<close>, from the validation of the embedding on:
  \<open>emb\<close> is \<^verbatim>\<open>chunk.embedding\<close> as it stands after the backfill.
  \<^verbatim>\<open>
  const chunkId = `${documentId}_${i}`;
  if (!Array.isArray(chunk.embedding)) chunk.embedding = this.simpleHashEmbedding(chunk.content);
  this.vectors.set(chunkId, { id: chunkId, documentId: documentId.toString(), chunkId: i,
    content: chunk.content, metadata: chunk.metadata, type: chunk.type,
    embedding: chunk.embedding, embeddingModel: chunk.embeddingModel || 'fallback' });
  \<close>
\<close>

definition storeChunk :: "VectorStore \<Rightarrow> string \<Rightarrow> nat \<Rightarrow> chunk \<Rightarrow> embedding_value \<Rightarrow> VectorStore" where
  "storeChunk this docId i c emb =
     (let key = docId @ ''_'' @ digits i;
          e = (case emb of Vec v \<Rightarrow> v | _ \<Rightarrow> VectorStore_simpleHashEmbedding this (chunk_content c))
      in this\<lparr>vectors := map_set key
           \<lparr>vector_entry.id = key, documentId = docId, chunkId = i, content = chunk_content c,
            metadata = chunk_metadata c, type = chunk_type c, embedding = e,
            embeddingModel = (case chunk_embeddingModel c of None \<Rightarrow> ''fallback''
                              | Some name \<Rightarrow> if name = [] then ''fallback'' else name)\<rparr>
           (vectors this)\<rparr>)"

text \<open>
  \<^verbatim>\<open>storeDocument\<close> is an \<^verbatim>\<open>async\<close> function. Between two of its \<^verbatim>\<open>await\<close>s it runs
  without interruption; at \<^verbatim>\<open>await this.generateEmbedding(chunk.content)\<close>, which it
  reaches for every chunk whose embedding is falsy, it is suspended until the embedding is
  there. With a provider configured that is a request over the network, and the server
  handles other requests meanwhile, a search among them, on the store as it stands at that
  point. A task is therefore either suspended before chunk \<open>i\<close> or finished, and the
  stores of the suspended tasks are the states that a concurrent search can read.
\<close>

datatype store_task = Suspended VectorStore string "chunk list" nat | Finished VectorStore

function run_chunks :: "VectorStore \<Rightarrow> string \<Rightarrow> chunk list \<Rightarrow> nat \<Rightarrow> store_task" where
  "run_chunks this docId chunks i =
     (if i < length chunks
      then (if chunk_embedding (chunks ! i) = Missing then Suspended this docId chunks i
            else run_chunks (storeChunk this docId i (chunks ! i) (chunk_embedding (chunks ! i)))
                   docId chunks (Suc i))
      else Finished this)"
  by pat_completeness auto
termination
  by (relation "measure (\<lambda>(this, docId, chunks, i). length chunks - i)") auto

declare run_chunks.simps [simp del]

text \<open>The start of \<^verbatim>\<open>storeDocument\<close>: the document is registered, then the loop begins.\<close>

definition storeDocument_start :: "VectorStore \<Rightarrow> string \<Rightarrow> chunk list \<Rightarrow> store_task" where
  "storeDocument_start this docId chunks =
     run_chunks (this\<lparr>documents := map_set docId \<lparr>doc_id = docId, chunksCount = length chunks\<rparr>
                                        (documents this)\<rparr>) docId chunks 0"

text \<open>
  The task goes on when the awaited embedding is there. Searches in between read the
  store and leave it as it is, and the embedding depends on the text and the client, not
  on the two maps, so it is computed here from the store of the suspended task.
\<close>

fun resume :: "store_task \<Rightarrow> store_task" where
  "resume (Suspended this docId chunks i) =
     run_chunks (storeChunk this docId i (chunks ! i)
                   (Vec (generateEmbedding this (chunk_content (chunks ! i)))))
                docId chunks (Suc i)"
| "resume (Finished this) = Finished this"

fun store_of :: "store_task \<Rightarrow> VectorStore" where
  "store_of (Suspended this docId chunks i) = this"
| "store_of (Finished this) = this"

section \<open>The pipeline: query understanding\<close>

record RAGPipeline =
  vectorStore :: VectorStore
  maxContextLength :: nat
  topK :: int
  hf :: "HfInference option"
  MIN_SIMILARITY_THRESHOLD :: "real option"

text \<open>
  The constructor reads the configuration: \<^verbatim>\<open>parseInt(process.env.TOP_K_RESULTS) || 5\<close> and
  \<^verbatim>\<open>parseInt(process.env.MAX_CONTEXT_LENGTH) || 4000\<close>. The store is the one that
  \<^verbatim>\<open>index.js\<close> puts in place of the constructor's own.
\<close>

definition new_RAGPipeline ::
  "VectorStore \<Rightarrow> int option \<Rightarrow> nat option \<Rightarrow> HfInference option \<Rightarrow> real option \<Rightarrow> RAGPipeline" where
  "new_RAGPipeline store TOP_K_RESULTS MAX_CONTEXT_LENGTH client threshold =
     \<lparr>vectorStore = store, maxContextLength = or_default MAX_CONTEXT_LENGTH 4000,
      topK = or_default TOP_K_RESULTS 5, hf = client, MIN_SIMILARITY_THRESHOLD = threshold\<rparr>"

text \<open>
  \<^verbatim>\<open>RAGPipeline.simpleHashEmbedding(text)\<close>: no guard, no filter on the word length, no
  character features, and no test of the magnitude before the division.
\<close>

definition RAGPipeline_hashCounts :: "string \<Rightarrow> real list" where
  "RAGPipeline_hashCounts text = addWords (split_whitespace (toLowerCase text)) (replicate 384 0)"

definition RAGPipeline_simpleHashEmbedding :: "RAGPipeline \<Rightarrow> string \<Rightarrow> real list" where
  "RAGPipeline_simpleHashEmbedding this text =
     (let embedding = RAGPipeline_hashCounts text
      in map (\<lambda>val. val / magnitude embedding) embedding)"

definition generateQueryEmbedding :: "RAGPipeline \<Rightarrow> string \<Rightarrow> embedding_value" where
  "generateQueryEmbedding this query =
     (case RAGPipeline.hf this of
        None \<Rightarrow> Vec (RAGPipeline_simpleHashEmbedding this query)
      | Some client \<Rightarrow>
          (case featureExtraction client query of
             None \<Rightarrow> Vec (RAGPipeline_simpleHashEmbedding this query)
           | Some response0 \<Rightarrow> response0))"

fun starts_with :: "string \<Rightarrow> string \<Rightarrow> bool" where
  "starts_with s [] = True"
| "starts_with [] (p # ps) = False"
| "starts_with (c # cs) (p # ps) = (c = p \<and> starts_with cs ps)"

fun str_includes :: "string \<Rightarrow> string \<Rightarrow> bool" where
  "str_includes [] p = (p = [])"
| "str_includes (c # cs) p = (starts_with (c # cs) p \<or> str_includes cs p)"

text \<open>
  A pattern of the table is an alternation of literal phrases under the flag \<^verbatim>\<open>i\<close>:
  \<^verbatim>\<open>pattern.test(query)\<close> holds when one of the phrases occurs in the query, letter case
  aside.
\<close>

definition pattern_test :: "string list \<Rightarrow> string \<Rightarrow> bool" where
  "pattern_test phrases query = list_ex (str_includes (toLowerCase query)) phrases"

definition intents :: "(string \<times> string list) list" where
  "intents =
    [(''factual'', [''what is'', ''define'', ''explain'', ''tell me about'', ''describe'']),
     (''comparison'', [''compare'', ''versus'', ''vs'', ''difference between'', ''contrast'']),
     (''procedural'', [''how to'', ''steps'', ''process'', ''procedure'', ''method'']),
     (''analytical'', [''analyze'', ''analysis'', ''insights'', ''trends'', ''patterns'']),
     (''numerical'', [''statistics'', ''numbers'', ''data'', ''metrics'', ''calculate'', ''count'']),
     (''visual'', [''chart'', ''graph'', ''table'', ''image'', ''figure'', ''diagram'', ''plot'']),
     (''temporal'', [''when'', ''date'', ''time'', ''schedule'', ''timeline'', ''history'']),
     (''location'', [''where'', ''location'', ''place'', ''address'', ''site'']),
     (''causal'', [''why'', ''cause'', ''effect'', ''because'', ''reason'']),
     (''list'', [''list'', ''enumerate'', ''examples'', ''instances'', ''items''])]"

text \<open>
  \<^verbatim>\<open>
  for (const [intent, pattern] of Object.entries(intents)) {
    if (pattern.test(query)) return intent;
  }
  return 'information_request';
  \<close>
\<close>

fun classify_loop :: "(string \<times> string list) list \<Rightarrow> string \<Rightarrow> string" where
  "classify_loop [] query = ''information_request''"
| "classify_loop ((intent, pattern) # rest) query =
     (if pattern_test pattern query then intent else classify_loop rest query)"

definition classifyIntent :: "string \<Rightarrow> string" where
  "classifyIntent query = classify_loop intents query"

definition isUpper :: "char \<Rightarrow> bool" where
  "isUpper c = (65 \<le> (of_char c :: nat) \<and> (of_char c :: nat) \<le> 90)"

definition isLower :: "char \<Rightarrow> bool" where
  "isLower c = (97 \<le> (of_char c :: nat) \<and> (of_char c :: nat) \<le> 122)"

definition isDigit :: "char \<Rightarrow> bool" where
  "isDigit c = (48 \<le> (of_char c :: nat) \<and> (of_char c :: nat) \<le> 57)"

text \<open>\<^verbatim>\<open>word.match(/^[A-Z][a-z]+/) || word.match(/^[A-Z]{2,}/)\<close>\<close>

fun entity_like :: "string \<Rightarrow> bool" where
  "entity_like (a # b # _) = (isUpper a \<and> (isLower b \<or> isUpper b))"
| "entity_like _ = False"

definition extractEntities :: "string \<Rightarrow> string list" where
  "extractEntities query = filter entity_like (split_whitespace query)"

definition stopWords :: "string list" where
  "stopWords = [''the'', ''a'', ''an'', ''and'', ''or'', ''but'', ''in'', ''on'', ''at'', ''to'', ''for'',
     ''of'', ''with'', ''by'', ''is'', ''are'', ''was'', ''were'', ''be'', ''been'', ''have'', ''has'',
     ''had'', ''do'', ''does'', ''did'', ''will'', ''would'', ''could'', ''should'', ''may'', ''might'',
     ''can'', ''this'', ''that'', ''these'', ''those'']"

definition extractKeywords :: "string \<Rightarrow> string list" where
  "extractKeywords query =
     take 10 (filter (\<lambda>word. length word > 2 \<and> word \<notin> set stopWords)
                     (split_whitespace (toLowerCase query)))"

fun join :: "string \<Rightarrow> string list \<Rightarrow> string" where
  "join sep [] = []"
| "join sep [x] = x"
| "join sep (x # y # ys) = x @ sep @ join sep (y # ys)"

definition expandQuery :: "string \<Rightarrow> string list \<Rightarrow> string" where
  "expandQuery query keywords = query @ '' '' @ join '' '' keywords"

record processed_query =
  query_text :: string
  query_intent :: string
  query_entities :: "string list"
  query_keywords :: "string list"
  processedText :: string

definition preprocessQuery :: "string \<Rightarrow> processed_query" where
  "preprocessQuery query =
     \<lparr>query_text = query, query_intent = classifyIntent query,
      query_entities = extractEntities query,
      query_keywords = extractKeywords query, processedText = expandQuery query (extractKeywords query)\<rparr>"

section \<open>The pipeline: reranking\<close>

text \<open>
  \<^verbatim>\<open>
  const queryWords = new Set(query.toLowerCase().split(/\s+/));
  const chunkWords = new Set(chunk.content.toLowerCase().split(/\s+/));
  const intersection = new Set([...queryWords].filter(x => chunkWords.has(x)));
  const wordOverlapScore = intersection.size / queryWords.size;
  const vectorScore = chunk.similarity || 0;
  const lengthScore = Math.min(chunk.content.length / 500, 1.0);
  const metadataBonus = chunk.metadata?.semanticChunk ? 0.1 : 0;
  return (wordOverlapScore * 0.4) + (vectorScore * 0.4) + (lengthScore * 0.1) + metadataBonus;
  \<close>
  The query words are all the pieces of the lowered query, not the keywords of
  \<open>extractKeywords\<close>. Every candidate comes from the search and carries its similarity.
\<close>

definition calculateChunkRelevance :: "string \<Rightarrow> search_result \<Rightarrow> real" where
  "calculateChunkRelevance query chunk =
     (let queryWords = wordSet query;
          chunkWords = wordSet (content chunk);
          intersection = Set.filter (\<lambda>x. x \<in> chunkWords) queryWords;
          wordOverlapScore = real (card intersection) / real (card queryWords);
          vectorScore = similarity chunk;
          lengthScore = min (real (length (content chunk)) / 500) 1;
          metadataBonus = (case metadata chunk of
                             Some md \<Rightarrow> if semanticChunk md then 1 / 10 else 0
                           | None \<Rightarrow> 0)
      in wordOverlapScore * (4 / 10) + vectorScore * (4 / 10) + lengthScore * (1 / 10) + metadataBonus)"

text \<open>
  \<^verbatim>\<open>chunks.sort((a, b) => calculateChunkRelevance(query, b) - calculateChunkRelevance(query, a))\<close>
\<close>

definition rerank :: "string \<Rightarrow> search_result list \<Rightarrow> search_result list" where
  "rerank query chunks = sort_key (\<lambda>chunk. - calculateChunkRelevance query chunk) chunks"

section \<open>The pipeline: answer generation\<close>

definition newline :: string where
  "newline = [CHR 0x0A]"

definition dquote :: string where
  "dquote = [CHR 0x22]"

definition buildContext :: "search_result list \<Rightarrow> string" where
  "buildContext chunks = join (newline @ newline) (map content chunks)"

definition buildPrompt :: "string \<Rightarrow> string \<Rightarrow> string \<Rightarrow> string" where
  "buildPrompt query ctx intent =
     ''Question: '' @ query @ newline @
     ''Intent: '' @ intent @ newline @
     ''Context: '' @ ctx @ newline @ newline @
     ''Please provide a clear and accurate answer based on the context provided. '' @
     ''If the context doesn'' @ [CHR 0x27] @ ''t contain enough information to answer the question, please say so.''"

text \<open>\<^verbatim>\<open>context.split('\n\n')\<close>: the pieces between occurrences of two line feeds, left to right.\<close>

fun split_paragraphs :: "string \<Rightarrow> string \<Rightarrow> string list" where
  "split_paragraphs cur [] = [rev cur]"
| "split_paragraphs cur [c] = [rev (c # cur)]"
| "split_paragraphs cur (c # d # rest) =
     (if c = CHR 0x0A \<and> d = CHR 0x0A then rev cur # split_paragraphs [] rest
      else split_paragraphs (c # cur) (d # rest))"

definition trim :: "string \<Rightarrow> string" where
  "trim s = rev (dropWhile isWhiteSpace (rev (dropWhile isWhiteSpace s)))"

text \<open>
  \<^verbatim>\<open>bestChunk.match(/\d+(?:\.\d+)?/g)\<close>: a maximal run of digits, with a point and a further
  run of digits when both follow; the scan goes on behind each match. The result is the
  list of matches (\<^verbatim>\<open>null\<close> in the program when it is empty).
\<close>

datatype number_scan = Outside | IntPart | FracPart

fun match_numbers :: "number_scan \<Rightarrow> string \<Rightarrow> string \<Rightarrow> string list" where
  "match_numbers Outside cur [] = []"
| "match_numbers Outside cur (c # cs) =
     (if isDigit c then match_numbers IntPart [c] cs else match_numbers Outside [] cs)"
| "match_numbers IntPart cur [] = [rev cur]"
| "match_numbers IntPart cur (c # cs) =
     (if isDigit c then match_numbers IntPart (c # cur) cs
      else if c = CHR ''.'' \<and> (case cs of [] \<Rightarrow> False | d # _ \<Rightarrow> isDigit d)
           then match_numbers FracPart (c # cur) cs
           else rev cur # match_numbers Outside [] cs)"
| "match_numbers FracPart cur [] = [rev cur]"
| "match_numbers FracPart cur (c # cs) =
     (if isDigit c then match_numbers FracPart (c # cur) cs
      else rev cur # match_numbers Outside [] cs)"

text \<open>
  The search for the best piece of the context:
  \<^verbatim>\<open>
  let bestChunk = contextChunks[0]; let bestScore = 0;
  for (const chunk of contextChunks) {
    ... const score = intersection.size / queryWords.size;
    if (score > bestScore) { bestScore = score; bestChunk = chunk; }
  }
  \<close>
\<close>

definition overlap_score :: "string \<Rightarrow> string \<Rightarrow> real" where
  "overlap_score query piece =
     real (card (Set.filter (\<lambda>x. x \<in> wordSet piece) (wordSet query))) / real (card (wordSet query))"

fun best_loop :: "string \<Rightarrow> string list \<Rightarrow> string \<times> real \<Rightarrow> string \<times> real" where
  "best_loop query [] best = best"
| "best_loop query (piece # rest) (bestChunk, bestScore) =
     (if overlap_score query piece > bestScore
      then best_loop query rest (piece, overlap_score query piece)
      else best_loop query rest (bestChunk, bestScore))"

definition excerpt :: "nat \<Rightarrow> string \<Rightarrow> string" where
  "excerpt n s = take n s @ (if length s > n then ''...'' else [])"

definition generateSimpleResponse :: "string \<Rightarrow> string \<Rightarrow> string \<Rightarrow> string" where
  "generateSimpleResponse query ctx intent =
     (let contextChunks = filter (\<lambda>piece. length (trim piece) > 0) (split_paragraphs [] ctx)
      in case contextChunks of
           [] \<Rightarrow> ''I don'' @ [CHR 0x27] @ ''t have enough information to answer your question: '' @ dquote @
                  query @ dquote @ ''. Please try uploading relevant documents first.''
         | first # _ \<Rightarrow>
             (let bestChunk = fst (best_loop query contextChunks (first, 0))
              in if intent = ''factual''
                   then ''Based on the document content: '' @ excerpt 300 bestChunk
                 else if intent = ''comparison''
                   then ''To compare the requested information, here are the relevant details from the documents: ''
                        @ excerpt 300 bestChunk
                 else if intent = ''procedural''
                   then ''Here are the steps or process details: '' @ excerpt 300 bestChunk
                 else if intent = ''numerical''
                   then (case match_numbers Outside [] bestChunk of
                           [] \<Rightarrow> ''Here'' @ [CHR 0x27] @ ''s the relevant information: '' @ excerpt 300 bestChunk
                         | numbers \<Rightarrow> ''The numerical data from the documents includes: '' @
                                       join '', '' (take 5 numbers) @ ''. Full context: '' @
                                       excerpt 200 bestChunk)
                 else ''Here'' @ [CHR 0x27] @ ''s what I found in the documents regarding your question: ''
                      @ excerpt 300 bestChunk))"

text \<open>
  \<^verbatim>\<open>generateWithHuggingFace\<close>: one model, then a second when the first throws, then the
  extractive answer when both throw; a falsy generated text gives a fixed sentence.
\<close>

definition generateWithHuggingFace :: "HfInference \<Rightarrow> string \<Rightarrow> string \<Rightarrow> string \<Rightarrow> string" where
  "generateWithHuggingFace client query ctx intent =
     (let prompt = buildPrompt query ctx intent;
          generated = (\<lambda>t. if t = [] then ''Generated response based on the provided context.'' else t)
      in case textGeneration client ''microsoft/DialoGPT-small'' prompt of
           Some t \<Rightarrow> generated t
         | None \<Rightarrow>
             (case textGeneration client ''gpt2'' prompt of
                Some t \<Rightarrow> generated t
              | None \<Rightarrow> generateSimpleResponse query ctx intent))"

definition generate :: "RAGPipeline \<Rightarrow> string \<Rightarrow> string \<Rightarrow> string \<Rightarrow> string" where
  "generate this query ctx intent =
     (case RAGPipeline.hf this of
        Some client \<Rightarrow> generateWithHuggingFace client query ctx intent
      | None \<Rightarrow> generateSimpleResponse query ctx intent)"

section \<open>The pipeline: scores\<close>

definition calculateRelevanceScore :: "search_result list \<Rightarrow> string \<Rightarrow> real" where
  "calculateRelevanceScore chunks response =
     (if length chunks = 0 then 0
      else let avgSimilarity = foldl (\<lambda>sum chunk. sum + similarity chunk) 0 chunks / real (length chunks);
               diversityBonus = min (real (length chunks) / 3) (2 / 10)
           in min (avgSimilarity + diversityBonus) 1)"

text \<open>\<^verbatim>\<open>new Set(sources.map(s => s.content.toLowerCase().split(/\s+/)).flat())\<close>\<close>

definition sourceWordSet :: "search_result list \<Rightarrow> string set" where
  "sourceWordSet sources = set (concat (map (\<lambda>s. split_whitespace (toLowerCase (content s))) sources))"

definition calculateFaithfulness :: "string \<Rightarrow> search_result list \<Rightarrow> real" where
  "calculateFaithfulness response sources =
     (let responseWords = wordSet response;
          sourceWords = sourceWordSet sources;
          intersection = Set.filter (\<lambda>x. x \<in> sourceWords) responseWords
      in real (card intersection) / real (max (card responseWords) 1))"

definition calculateAnswerRelevancy :: "string \<Rightarrow> string \<Rightarrow> real" where
  "calculateAnswerRelevancy query response =
     (let queryWords = wordSet query;
          responseWords = wordSet response;
          intersection = Set.filter (\<lambda>x. x \<in> responseWords) queryWords
      in real (card intersection) / real (max (card queryWords) 1))"

definition calculateContextRecall :: "string \<Rightarrow> search_result list \<Rightarrow> real" where
  "calculateContextRecall query sources =
     (let queryWords = wordSet query;
          sourceWords = sourceWordSet sources;
          intersection = Set.filter (\<lambda>x. x \<in> sourceWords) queryWords
      in real (card intersection) / real (max (card queryWords) 1))"

definition calculateContextPrecision :: "string \<Rightarrow> search_result list \<Rightarrow> real" where
  "calculateContextPrecision query sources =
     (let queryWords = wordSet query;
          relevantSources = filter (\<lambda>source.
              card (Set.filter (\<lambda>x. x \<in> wordSet (content source)) queryWords) > 0) sources
      in real (length relevantSources) / real (max (length sources) 1))"

record ragas_metrics =
  faithfulness :: real
  answerRelevancy :: real
  contextRecall :: real
  contextPrecision :: real
  overallScore :: real

text \<open>
  The handler of \<^verbatim>\<open>calculateRAGASMetrics\<close> (fixed values 0.8, 0.7, 0.8, 0.7, 0.75) is for an
  exception of the four functions; on strings and retrieved chunks they throw nothing.
\<close>

definition calculateRAGASMetrics :: "string \<Rightarrow> string \<Rightarrow> search_result list \<Rightarrow> ragas_metrics" where
  "calculateRAGASMetrics query response sources =
     (let f = calculateFaithfulness response sources;
          a = calculateAnswerRelevancy query response;
          r = calculateContextRecall query sources;
          p = calculateContextPrecision query sources
      in \<lparr>faithfulness = f, answerRelevancy = a, contextRecall = r, contextPrecision = p,
          overallScore = (f + a + r + p) / 4\<rparr>)"

section \<open>The pipeline: query\<close>

record source_passage =
  source_content :: string
  source_similarity :: real
  source_documentId :: string
  source_type :: string
  source_metadata :: "chunk_metadata option"

record query_result =
  answer :: string
  sources :: "source_passage list"
  relevanceScore :: real
  result_context :: string
  queryIntent :: string
  metrics :: ragas_metrics

definition no_chunks_answer :: "string \<Rightarrow> string" where
  "no_chunks_answer query =
     ''I couldn'' @ [CHR 0x27] @ ''t find specific information to answer your question: '' @ dquote @
     query @ dquote @ ''. This might be because:'' @ newline @
     ''          '' @ newline @
     ''1. The document content doesn'' @ [CHR 0x27] @ ''t contain information related to your query'' @ newline @
     ''2. The similarity threshold is too high'' @ newline @
     ''3. There might be an issue with the document processing'' @ newline @
     newline @
     ''Please try:'' @ newline @
     ''- Rephrasing your question'' @ newline @
     ''- Asking about specific topics mentioned in the document'' @ newline @
     ''- Uploading additional relevant documents''"

text \<open>
  The options of the search: \<^verbatim>\<open>{ minSimilarity: parseFloat(env) || 0.1, topK: this.topK,
  ...filters }\<close>, so a key that the caller gives wins (\<open>None\<close> is a key that is not there).
\<close>

definition search_options :: "RAGPipeline \<Rightarrow> search_filters \<Rightarrow> search_filters" where
  "search_options this filters =
     \<lparr>minSimilarity = (case minSimilarity filters of
                          None \<Rightarrow> Some (or_default (MIN_SIMILARITY_THRESHOLD this) (1 / 10))
                        | Some m \<Rightarrow> Some m),
      topK = (case search_filters.topK filters of
                None \<Rightarrow> Some (RAGPipeline.topK this)
              | Some k \<Rightarrow> Some k)\<rparr>"

definition to_source :: "search_result \<Rightarrow> source_passage" where
  "to_source chunk =
     \<lparr>source_content = content chunk, source_similarity = similarity chunk,
      source_documentId = documentId chunk, source_type = type chunk,
      source_metadata = metadata chunk\<rparr>"

definition query :: "RAGPipeline \<Rightarrow> string \<Rightarrow> string list option \<Rightarrow> search_filters \<Rightarrow> query_result" where
  "query this q documentIds filters =
     (let processedQuery = preprocessQuery q;
          queryEmbedding = generateQueryEmbedding this (query_text processedQuery);
          relevantChunks = searchWithEmbedding (vectorStore this) queryEmbedding documentIds
                             (search_options this filters)
      in if length relevantChunks = 0
         then \<lparr>answer = no_chunks_answer q, sources = [], relevanceScore = 0, result_context = [],
               queryIntent = ''information_request'',
               metrics = \<lparr>faithfulness = 0, answerRelevancy = 0, contextRecall = 0,
                          contextPrecision = 0, overallScore = 0\<rparr>\<rparr>
         else let rerankedChunks = rerank q relevantChunks;
                  selectedChunks = slice0 (RAGPipeline.topK this) rerankedChunks;
                  ctx = buildContext selectedChunks;
                  response = generate this q ctx (query_intent processedQuery)
              in \<lparr>answer = response, sources = map to_source selectedChunks,
                  relevanceScore = calculateRelevanceScore selectedChunks response,
                  result_context = ctx, queryIntent = query_intent processedQuery,
                  metrics = calculateRAGASMetrics q response selectedChunks\<rparr>)"

section \<open>Vocabulary of the statements\<close>

text \<open>
  A stored passage with its similarity to the query attached, and the test that the
  search applies to a stored passage: its document is among the given ones, when a list
  is given, and its similarity reaches the threshold \<open>m\<close>.
\<close>

definition scored :: "embedding_value \<Rightarrow> vector_entry \<Rightarrow> search_result" where
  "scored q v = with_similarity v (calculateCosineSimilarity q (Vec (embedding v)))"

definition passes :: "embedding_value \<Rightarrow> string list option \<Rightarrow> real \<Rightarrow> vector_entry \<Rightarrow> bool" where
  "passes q documentIds m v =
     ((case documentIds of None \<Rightarrow> True | Some ids \<Rightarrow> documentId v \<in> set ids)
      \<and> m \<le> calculateCosineSimilarity q (Vec (embedding v)))"

text \<open>The result of a query for which the search returned nothing.\<close>

definition no_evidence_result :: "string \<Rightarrow> query_result" where
  "no_evidence_result q =
     \<lparr>answer = no_chunks_answer q, sources = [], relevanceScore = 0, result_context = [],
      queryIntent = ''information_request'',
      metrics = \<lparr>faithfulness = 0, answerRelevancy = 0, contextRecall = 0,
                 contextPrecision = 0, overallScore = 0\<rparr>\<rparr>"

text \<open>The stored passages of a document, in insertion order.\<close>

definition passages_of :: "VectorStore \<Rightarrow> string \<Rightarrow> vector_entry list" where
  "passages_of this d = filter (\<lambda>v. documentId v = d) (map snd (vectors this))"

text \<open>
  The value of a decimal numeral, and the state of the index while a document is being
  stored: \<open>stored_prefix s0 d chunks i s\<close> says that the store \<open>s\<close> holds what \<open>s0\<close> held,
  followed by the first \<open>i\<close> passages of the document \<open>d\<close>, in order. \<open>task_inv\<close> is what
  holds of a task after \<open>k\<close> resumptions.
\<close>

definition undigits :: "string \<Rightarrow> nat" where
  "undigits s = foldl (\<lambda>a c. 10 * a + (of_char c - 48)) 0 s"

definition stored_prefix :: "VectorStore \<Rightarrow> string \<Rightarrow> chunk list \<Rightarrow> nat \<Rightarrow> VectorStore \<Rightarrow> bool" where
  "stored_prefix s0 d chunks i s =
     (\<exists>es. vectors s = vectors s0 @ es \<and> length es = i \<and>
        (\<forall>j<i. fst (es ! j) = d @ ''_'' @ digits j \<and> documentId (snd (es ! j)) = d \<and>
                chunkId (snd (es ! j)) = j \<and> content (snd (es ! j)) = chunk_content (chunks ! j)))"

fun task_inv :: "VectorStore \<Rightarrow> string \<Rightarrow> chunk list \<Rightarrow> nat \<Rightarrow> store_task \<Rightarrow> bool" where
  "task_inv s0 d chunks k (Suspended s d' cs j) =
     (d' = d \<and> cs = chunks \<and> k \<le> j \<and> j < length chunks \<and>
      chunk_embedding (chunks ! j) = Missing \<and> stored_prefix s0 d chunks j s)"
| "task_inv s0 d chunks k (Finished s) = stored_prefix s0 d chunks (length chunks) s"

text \<open>
  The sum a loop accumulates from 0 in binary64, left to right, and the norm of an array
  as \<^verbatim>\<open>calculateCosineSimilarity\<close> computes it.
\<close>

definition sum64 :: "f64 list \<Rightarrow> f64" where
  "sum64 xs = foldl f64_add (Finite 0) xs"

definition norm64 :: "f64 list \<Rightarrow> f64" where
  "norm64 v = f64_sqrt (sum64 (map2 f64_mul v v))"

definition padded64 :: "f64 list \<Rightarrow> nat \<Rightarrow> f64 list" where
  "padded64 v n = v @ replicate (n - length v) (Finite 0)"

section \<open>Examples\<close>

definition example_entry :: "string \<Rightarrow> string \<Rightarrow> nat \<Rightarrow> string \<Rightarrow> real list \<Rightarrow> string \<times> vector_entry" where
  "example_entry key d i c e =
     (key,
      \<lparr>vector_entry.id = key, documentId = d, chunkId = i, content = c,
       metadata = None, type = ''application/pdf'', embedding = e, embeddingModel = ''fallback''\<rparr>)"

definition example_store :: VectorStore where
  "example_store =
     \<lparr>vectors = [example_entry ''1_0'' ''1'' 0 ''alpha'' [0, 1], example_entry ''1_1'' ''1'' 1 ''beta'' [3, 4],
                 example_entry ''2_0'' ''2'' 0 ''gamma'' [2], example_entry ''2_1'' ''2'' 1 ''delta'' [5, 0, 0]],
      documents = [], hf = None\<rparr>"

definition example_client :: HfInference where
  "example_client =
     \<lparr>featureExtraction = (\<lambda>t. Some (Vec [1, 0])), textGeneration = (\<lambda>model prompt. Some ''ok'')\<rparr>"

definition example_pipeline :: RAGPipeline where
  "example_pipeline = new_RAGPipeline example_store None None (Some example_client) None"

definition example_chunks :: "chunk list" where
  "example_chunks =
     [\<lparr>chunk_content = ''first'', chunk_metadata = None, chunk_type = ''application/pdf'',
       chunk_embedding = Missing, chunk_embeddingModel = None\<rparr>,
      \<lparr>chunk_content = ''second'', chunk_metadata = None, chunk_type = ''application/pdf'',
       chunk_embedding = Missing, chunk_embeddingModel = None\<rparr>]"

definition example_new_store :: VectorStore where
  "example_new_store = \<lparr>vectors = [], documents = [], hf = Some example_client\<rparr>"

section \<open>Cosine similarity over the reals, in closed form\<close>

lemma pad_zeros_eq: "pad_zeros v n = v @ replicate (n - length v) 0"
proof (induction v n rule: pad_zeros.induct)
  case (1 v n)
  show ?case
  proof (cases "length v < n")
    case True
    then have "n - length v = Suc (n - Suc (length v))" by simp
    with 1 True show ?thesis
      by (subst pad_zeros.simps) (simp add: replicate_app_Cons_same)
  next
    case False
    then show ?thesis by (subst pad_zeros.simps) simp
  qed
qed

lemma cosine_loop_sums:
  "cosine_loop v1 v2 n =
     ((\<Sum>i<n. v1 ! i * v2 ! i), (\<Sum>i<n. v1 ! i * v1 ! i), (\<Sum>i<n. v2 ! i * v2 ! i))"
  unfolding cosine_loop_def by (induction n) simp_all

lemma sum_nth_map2:
  fixes xs ys :: "real list"
  assumes "length xs = n" "length ys = n"
  shows "(\<Sum>i<n. xs ! i * ys ! i) = sum_list (map2 (*) xs ys)"
proof -
  have "sum_list (map2 (*) xs ys) = (\<Sum>i = 0..<length (map2 (*) xs ys). map2 (*) xs ys ! i)"
    by (rule sum_list_sum_nth)
  also have "\<dots> = (\<Sum>i<n. xs ! i * ys ! i)"
    using assms by (simp add: atLeast0LessThan)
  finally show ?thesis by simp
qed

lemma sum_nth_squares:
  fixes xs :: "real list"
  assumes "length xs = n"
  shows "(\<Sum>i<n. xs ! i * xs ! i) = sum_list (map (\<lambda>x. x * x) xs)"
proof -
  have "sum_list (map (\<lambda>x. x * x) xs) =
        (\<Sum>i = 0..<length (map (\<lambda>x. x * x) xs). map (\<lambda>x. x * x) xs ! i)"
    by (rule sum_list_sum_nth)
  also have "\<dots> = (\<Sum>i<n. xs ! i * xs ! i)"
    using assms by (simp add: atLeast0LessThan)
  finally show ?thesis by simp
qed

lemma cosine_Vec_sums:
  "calculateCosineSimilarity (Vec a) (Vec b) =
     (let n = max (length a) (length b);
          a' = pad_zeros a n; b' = pad_zeros b n;
          den = sqrt (\<Sum>i<n. a' ! i * a' ! i) * sqrt (\<Sum>i<n. b' ! i * b' ! i)
      in if den = 0 then 0 else (\<Sum>i<n. a' ! i * b' ! i) / den)"
  by (simp add: cosine_loop_sums Let_def)

lemma sum_list_squares_zero_iff:
  fixes xs :: "real list"
  shows "sum_list (map (\<lambda>x. x * x) xs) = 0 \<longleftrightarrow> (\<forall>x\<in>set xs. x = 0)"
proof (induction xs)
  case Nil
  show ?case by simp
next
  case (Cons x xs)
  have "0 \<le> sum_list (map (\<lambda>x. x * x) xs)" by (rule sum_list_nonneg) auto
  then have "x * x + sum_list (map (\<lambda>x. x * x) xs) = 0
             \<longleftrightarrow> x * x = 0 \<and> sum_list (map (\<lambda>x. x * x) xs) = 0"
    by (simp add: add_nonneg_eq_0_iff)
  with Cons show ?case by simp
qed

text \<open>The padding and the summation in closed form: what the padded arrays are and what is divided.\<close>

lemma cosine_closed_form:
  "calculateCosineSimilarity (Vec a) (Vec b) =
     (let n = max (length a) (length b);
          a' = a @ replicate (n - length a) 0;
          b' = b @ replicate (n - length b) 0;
          den = sqrt (sum_list (map (\<lambda>x. x * x) a')) * sqrt (sum_list (map (\<lambda>x. x * x) b'))
      in if den = 0 then 0 else sum_list (map2 (*) a' b') / den)"
proof -
  define n where "n = max (length a) (length b)"
  define a' where "a' = a @ replicate (n - length a) 0"
  define b' where "b' = b @ replicate (n - length b) 0"
  have la: "length a' = n" and lb: "length b' = n" by (simp_all add: a'_def b'_def n_def)
  have "calculateCosineSimilarity (Vec a) (Vec b) =
     (if sqrt (sum_list (map (\<lambda>x. x * x) a')) * sqrt (sum_list (map (\<lambda>x. x * x) b')) = 0 then 0
      else sum_list (map2 (*) a' b') /
           (sqrt (sum_list (map (\<lambda>x. x * x) a')) * sqrt (sum_list (map (\<lambda>x. x * x) b'))))"
    unfolding cosine_Vec_sums Let_def pad_zeros_eq n_def [symmetric] a'_def [symmetric] b'_def [symmetric]
    by (simp only: sum_nth_map2 [OF la lb] sum_nth_squares [OF la] sum_nth_squares [OF lb])
  then show ?thesis by (simp add: Let_def n_def a'_def b'_def)
qed

lemma sqrt_values: "sqrt 25 = 5" "sqrt 4 = 2" "sqrt 9 = 3"
  by (rule real_sqrt_unique; simp)+

section \<open>Cosine similarity in binary64: total, 0 on a zero norm, not bounded by 1\<close>

lemma round_half_even_eqI:
  assumes "\<bar>x - of_int n\<bar> < 1 / 2"
  shows "round_half_even x = n"
proof -
  from assms have a: "of_int n - 1 / 2 < x" and b: "x < of_int n + 1 / 2" by linarith+
  show ?thesis
  proof (cases "of_int n \<le> x")
    case True
    then have "\<lfloor>x\<rfloor> = n" using b by (intro floor_unique) linarith+
    then show ?thesis using b by (simp add: round_half_even_def Let_def)
  next
    case False
    then have f: "\<lfloor>x\<rfloor> = n - 1" using a by (intro floor_unique) (simp, linarith)+
    have "1 / 2 < x - of_int (n - 1)" using a by simp
    then show ?thesis using f by (simp add: round_half_even_def Let_def)
  qed
qed

lemma floor_log2_eqI:
  fixes x :: real
  assumes "2 powr of_int e \<le> x" "x < 2 powr (of_int e + 1)"
  shows "\<lfloor>log 2 x\<rfloor> = e"
proof -
  have pos: "0 < x" using assms(1) by (smt (verit) powr_gt_zero)
  have "of_int e \<le> log 2 x" using assms(1) pos by (simp add: le_log_iff)
  moreover have "log 2 x < of_int e + 1" using assms(2) pos by (simp add: log_less_iff)
  ultimately show ?thesis by (intro floor_unique) simp_all
qed

text \<open>
  How a positive real in the binade of exponent \<open>e\<close> is rounded: to \<open>n\<close> units in the last
  place when \<open>n\<close> is the nearest integer to the scaled value.
\<close>

lemma round64_eqI:
  fixes x :: real
  assumes x: "0 < x" and lo: "2 powr of_int e \<le> x" and hi: "x < 2 powr (of_int e + 1)"
    and e: "- 1022 \<le> e"
    and n: "\<bar>x / 2 powr (of_int e - 52) - of_int n\<bar> < 1 / 2"
    and fin: "of_int n * 2 powr (of_int e - 52) < (2::real) powr 1024"
  shows "round64 x = Finite (of_int n * 2 powr (of_int e - 52))"
proof -
  have fl: "\<lfloor>log 2 \<bar>x\<bar>\<rfloor> = e" using x lo hi by (simp add: floor_log2_eqI)
  have m: "max e (- 1022) = e" using e by simp
  have r: "round_half_even (\<bar>x\<bar> / 2 powr (of_int e - 52)) = n"
    using x n by (simp add: round_half_even_eqI)
  have "x \<noteq> 0" "sgn x = 1" "x > 0" using x by simp_all
  then show ?thesis using fin unfolding round64_def Let_def fl m r by simp
qed

lemma round64_0 [simp]: "round64 0 = Finite 0"
  by (simp add: round64_def)

text \<open>The integers below \<open>2\<^sup>5\<^sup>3\<close> are binary64 values.\<close>

lemma round64_of_int:
  assumes "0 < k" "k < 2 ^ 53"
  shows "round64 (of_int k) = Finite (of_int k)"
proof -
  define e where "e = \<lfloor>log 2 (of_int k)\<rfloor>"
  have k1: "(1::real) \<le> of_int k" using assms(1) by simp
  have "0 \<le> log 2 (of_int k)" using k1 by simp
  then have e0: "0 \<le> e" unfolding e_def by simp
  have "real_of_int k < 2 ^ 53" using assms(2) by (metis of_int_less_numeral_power_cancel_iff)
  then have "real_of_int k < 2 powr 53" by (simp add: powr_numeral)
  then have "log 2 (of_int k) < 53" using k1 by (simp add: log_less_iff)
  then have e52: "e \<le> 52" unfolding e_def by (simp add: floor_le_iff)
  have lo: "2 powr of_int e \<le> real_of_int k"
    using k1 unfolding e_def by (simp add: powr_le_iff)
  have hi: "real_of_int k < 2 powr (of_int e + 1)"
    using k1 unfolding e_def by (simp add: less_powr_iff)
  define m where "m = k * 2 ^ nat (52 - e)"
  have q: "2 powr (real_of_int e - 52) = inverse (2 ^ nat (52 - e))"
  proof -
    have "2 powr (real_of_int e - 52) = 2 powr (- real (nat (52 - e)))"
      using e52 by simp
    also have "\<dots> = inverse (2 powr real (nat (52 - e)))" by (rule powr_minus)
    also have "\<dots> = inverse (2 ^ nat (52 - e))" by (simp add: powr_realpow)
    finally show ?thesis .
  qed
  have sc: "real_of_int k / 2 powr (of_int e - 52) = of_int m"
    unfolding q m_def by (simp add: field_simps)
  have unscale: "of_int m * 2 powr (of_int e - 52) = real_of_int k"
    unfolding q m_def by simp
  have "round64 (of_int k) = Finite (of_int m * 2 powr (of_int e - 52))"
  proof (rule round64_eqI [OF _ lo hi])
    show "0 < real_of_int k" using assms(1) by simp
    show "- 1022 \<le> e" using e0 by simp
    show "\<bar>real_of_int k / 2 powr (of_int e - 52) - of_int m\<bar> < 1 / 2" unfolding sc by simp
    have "real_of_int k < 2 powr 1024"
      using \<open>real_of_int k < 2 powr 53\<close> by (smt (verit) powr_mono)
    then show "of_int m * 2 powr (of_int e - 52) < (2::real) powr 1024" unfolding unscale .
  qed
  then show ?thesis unfolding unscale .
qed

lemma round64_numeral [simp]:
  "numeral w < (2::int) ^ 53 \<Longrightarrow> round64 (numeral w) = Finite (numeral w)"
  using round64_of_int [of "numeral w"] by simp

lemma round64_1 [simp]: "round64 1 = Finite 1"
  using round64_of_int [of 1] by simp

lemma pad_zeros64_eq: "pad_zeros64 v n = padded64 v n"
proof (induction v n rule: pad_zeros64.induct)
  case (1 v n)
  show ?case
  proof (cases "length v < n")
    case True
    then have "n - length v = Suc (n - Suc (length v))" by simp
    with 1 True show ?thesis
      by (subst pad_zeros64.simps) (simp add: padded64_def replicate_app_Cons_same)
  next
    case False
    then show ?thesis by (subst pad_zeros64.simps) (simp add: padded64_def)
  qed
qed

lemma length_padded64: "length v \<le> n \<Longrightarrow> length (padded64 v n) = n"
  by (simp add: padded64_def)

lemma cosine_loop64_take:
  assumes "k \<le> length v1" "k \<le> length v2"
  shows "fold (\<lambda>i (dotProduct, norm1, norm2).
             (f64_add dotProduct (f64_mul (v1 ! i) (v2 ! i)),
              f64_add norm1 (f64_mul (v1 ! i) (v1 ! i)),
              f64_add norm2 (f64_mul (v2 ! i) (v2 ! i))))
          [0..<k] (Finite 0, Finite 0, Finite 0)
         = (sum64 (map2 f64_mul (take k v1) (take k v2)),
            sum64 (map2 f64_mul (take k v1) (take k v1)),
            sum64 (map2 f64_mul (take k v2) (take k v2)))"
  using assms
proof (induction k)
  case 0
  show ?case by (simp add: sum64_def)
next
  case (Suc k)
  then have k1: "k < length v1" and k2: "k < length v2" by simp_all
  show ?case
    using Suc.IH k1 k2 by (simp add: sum64_def take_Suc_conv_app_nth)
qed

lemma cosine_loop64_sums:
  assumes "length v1 = n" "length v2 = n"
  shows "cosine_loop64 v1 v2 n =
           (sum64 (map2 f64_mul v1 v2), sum64 (map2 f64_mul v1 v1), sum64 (map2 f64_mul v2 v2))"
  unfolding cosine_loop64_def using cosine_loop64_take [of n v1 v2] assms by simp

lemma cosine64_closed_form:
  "calculateCosineSimilarity64 (Vec64 a) (Vec64 b) =
     (let n = max (length a) (length b);
          a' = padded64 a n;
          b' = padded64 b n;
          den = f64_mul (norm64 a') (norm64 b')
      in if den = Finite 0 then Finite 0 else f64_div (sum64 (map2 f64_mul a' b')) den)"
proof -
  define n where "n = max (length a) (length b)"
  have la: "length (padded64 a n) = n" and lb: "length (padded64 b n) = n"
    by (simp_all add: length_padded64 n_def)
  show ?thesis
    by (simp add: Let_def pad_zeros64_eq n_def [symmetric] cosine_loop64_sums [OF la lb] norm64_def)
qed

lemma sum64_zeros: "sum64 (replicate n (Finite 0)) = Finite 0"
  unfolding sum64_def by (induction n) simp_all

lemma norm64_zeros:
  assumes "\<forall>v\<in>set a. v = Finite 0"
  shows "norm64 (padded64 a n) = Finite 0"
proof -
  have "a = replicate (length a) (Finite 0)"
    using assms by (simp add: replicate_length_same)
  then have "padded64 a n = replicate (length a + (n - length a)) (Finite 0)"
    unfolding padded64_def by (metis replicate_add)
  then obtain m where p: "padded64 a n = replicate m (Finite 0)" by blast
  have "map2 f64_mul (replicate m (Finite 0)) (replicate m (Finite 0)) = replicate m (Finite 0)"
    by (simp add: zip_replicate)
  then show ?thesis by (simp add: norm64_def p sum64_zeros)
qed

lemma cosine64_zero_norm:
  assumes "norm64 (padded64 a (max (length a) (length b))) = Finite 0
             \<and> norm64 (padded64 b (max (length a) (length b))) = Finite y
           \<or> norm64 (padded64 a (max (length a) (length b))) = Finite y
             \<and> norm64 (padded64 b (max (length a) (length b))) = Finite 0"
  shows "calculateCosineSimilarity64 (Vec64 a) (Vec64 b) = Finite 0"
  using assms unfolding cosine64_closed_form Let_def by auto

lemma round_half_even_ge_floor: "\<lfloor>x\<rfloor> \<le> round_half_even x"
  by (simp add: round_half_even_def Let_def)

text \<open>Overflow: a real of magnitude \<open>2\<^sup>1\<^sup>0\<^sup>2\<^sup>4\<close> or more has no finite binary64 value.\<close>

lemma round64_huge:
  fixes x :: real
  assumes "2 powr 1024 \<le> x"
  shows "round64 x = Infinity True"
proof -
  have x: "0 < x" using assms by (smt (verit) powr_gt_zero)
  define e where "e = \<lfloor>log 2 x\<rfloor>"
  have "1024 \<le> log 2 x" using assms x by (simp add: le_log_iff)
  then have e: "1024 \<le> e" unfolding e_def by (simp add: le_floor_iff)
  have lo: "2 powr of_int e \<le> x" using x unfolding e_def by (simp add: powr_le_iff)
  define q :: real where "q = 2 powr (of_int e - 52)"
  have q: "0 < q" unfolding q_def by simp
  have "2 powr of_int e = 2 powr 52 * q"
    unfolding q_def using powr_add [of "2::real" 52 "of_int e - 52"] by simp
  then have eq: "2 powr of_int e = 2 ^ 52 * q" by (simp add: powr_numeral)
  then have "2 ^ 52 \<le> x / q" using lo q by (simp add: pos_le_divide_eq)
  then have "(2::int) ^ 52 \<le> \<lfloor>x / q\<rfloor>" by (simp add: le_floor_iff)
  then have "(2::int) ^ 52 \<le> round_half_even (x / q)"
    using round_half_even_ge_floor [of "x / q"] by linarith
  then have "(2::real) ^ 52 \<le> of_int (round_half_even (x / q))"
    by (metis of_int_le_iff of_int_numeral of_int_power)
  then have "2 ^ 52 * q \<le> of_int (round_half_even (x / q)) * q"
    using q by (simp add: mult_right_mono)
  moreover have "(2::real) powr 1024 \<le> 2 powr of_int e"
  proof (rule powr_mono)
    show "1024 \<le> real_of_int e" using e by simp
  qed simp
  ultimately have big: "2 powr 1024 \<le> of_int (round_half_even (x / q)) * q"
    using eq by linarith
  have m: "max e (- 1022) = e" using e by simp
  have ax: "\<bar>x\<bar> = x" "x \<noteq> 0" using x by simp_all
  show ?thesis
    unfolding round64_def Let_def ax e_def [symmetric] m q_def [symmetric]
    using big x by simp
qed

text \<open>Underflow: a positive real below half the least subnormal number is rounded to 0.\<close>

lemma round64_tiny:
  fixes x :: real
  assumes x: "0 < x" and small: "x < 2 powr (- 1075)"
  shows "round64 x = Finite 0"
proof -
  define e where "e = \<lfloor>log 2 x\<rfloor>"
  have "log 2 x < - 1075" using small x by (simp add: log_less_iff)
  then have "e < - 1022" unfolding e_def by (simp add: floor_less_iff)
  then have m: "max e (- 1022) = - 1022" by simp
  define q :: real where "q = 2 powr (- 1074)"
  have q: "0 < q" unfolding q_def by simp
  have "2 powr (- 1075) = (1 / 2) * q"
  proof -
    have "(2::real) powr (- 1074) = 2 powr (- 1075) * 2 powr 1"
      using powr_add [of "2::real" "- 1075" 1] by simp
    then show ?thesis by (simp add: q_def)
  qed
  then have "x / q < 1 / 2" using small q by (simp add: pos_divide_less_eq)
  moreover have "0 < x / q" using x q by simp
  ultimately have "\<bar>x / q - of_int 0\<bar> < 1 / 2" by simp
  then have r: "round_half_even (x / q) = 0" by (rule round_half_even_eqI)
  have ax: "\<bar>x\<bar> = x" "x \<noteq> 0" using x by simp_all
  have q': "2 powr (of_int (- 1022) - 52) = q" unfolding q_def by simp
  show ?thesis
    unfolding round64_def Let_def ax e_def [symmetric] m q' r by simp
qed

text \<open>The three roundings of the similarity of the array \<^verbatim>\<open>[1, 5]\<close> with itself.\<close>

lemma round64_sqrt_26: "round64 (sqrt 26) = Finite (5740985595342838 / 2 ^ 50)"
proof -
  have a: "4 \<le> sqrt 26" by (rule real_le_rsqrt) simp
  have b: "sqrt 26 < 8" by (rule real_less_lsqrt) simp_all
  have c: "5740985595342838 - 1 / 2 < sqrt 26 * 2 ^ 50"
  proof -
    have "(5740985595342838 - 1 / 2) / 2 ^ 50 < sqrt 26"
      by (rule real_less_rsqrt) (simp add: power2_eq_square)
    then show ?thesis by (simp add: field_simps)
  qed
  have d: "sqrt 26 * 2 ^ 50 < 5740985595342838 + 1 / 2"
  proof -
    have "sqrt 26 < (5740985595342838 + 1 / 2) / 2 ^ 50"
      by (rule real_less_lsqrt) (simp_all add: power2_eq_square)
    then show ?thesis by (simp add: field_simps)
  qed
  have n: "\<bar>sqrt 26 / 2 powr (of_int 2 - 52) - of_int 5740985595342838\<bar> < 1 / 2"
  proof -
    have "sqrt 26 / 2 powr (of_int 2 - 52) = sqrt 26 * 2 ^ 50"
      by (simp add: powr_numeral powr_neg_numeral)
    moreover have "\<bar>sqrt 26 * 2 ^ 50 - 5740985595342838\<bar> < 1 / 2"
      using c d by linarith
    ultimately show ?thesis by simp
  qed
  have f: "of_int 5740985595342838 * 2 powr (of_int 2 - 52) < (2::real) powr 1024"
    by (simp add: powr_numeral powr_neg_numeral)
  have lo: "2 powr of_int 2 \<le> sqrt 26" using a by (simp add: powr_numeral)
  have hi: "sqrt 26 < 2 powr (of_int 2 + 1)" using b by (simp add: powr_numeral)
  have "round64 (sqrt 26) = Finite (of_int 5740985595342838 * 2 powr (of_int 2 - 52))"
    by (rule round64_eqI [OF _ lo hi _ n f]) simp_all
  then show ?thesis by (simp add: powr_numeral powr_neg_numeral)
qed

lemma round64_square:
  "round64 (5740985595342838 / 2 ^ 50 * (5740985595342838 / 2 ^ 50))
     = Finite (7318349394477055 / 2 ^ 48)"
proof -
  let ?x = "5740985595342838 / 2 ^ 50 * (5740985595342838 / 2 ^ 50) :: real"
  have "round64 ?x = Finite (of_int 7318349394477055 * 2 powr (of_int 4 - 52))"
    by (rule round64_eqI) (simp_all add: powr_numeral powr_neg_numeral abs_less_iff)
  then show ?thesis by (simp add: powr_numeral powr_neg_numeral)
qed

lemma round64_quotient:
  "round64 (26 / (7318349394477055 / 2 ^ 48)) = Finite (1 + 1 / 2 ^ 52)"
proof -
  let ?x = "26 / (7318349394477055 / 2 ^ 48) :: real"
  have "round64 ?x = Finite (of_int 4503599627370497 * 2 powr (of_int 0 - 52))"
    by (rule round64_eqI) (simp_all add: powr_numeral powr_neg_numeral abs_less_iff)
  then show ?thesis by (simp add: powr_numeral powr_neg_numeral)
qed

lemma round64_three_fifths: "round64 (3 / 5) = Finite (5404319552844595 / 2 ^ 53)"
proof -
  have "round64 (3 / 5) = Finite (of_int 5404319552844595 * 2 powr (of_int (- 1) - 52))"
    by (rule round64_eqI) (simp_all add: powr_numeral powr_neg_numeral abs_less_iff)
  then show ?thesis by (simp add: powr_numeral powr_neg_numeral)
qed

lemma cosine64_self_1_5:
  "calculateCosineSimilarity64 (Vec64 [Finite 1, Finite 5]) (Vec64 [Finite 1, Finite 5])
     = Finite (1 + 1 / 2 ^ 52)"
proof -
  let ?v = "[Finite 1, Finite 5]"
  let ?s = "5740985595342838 / 2 ^ 50 :: real"
  let ?d = "7318349394477055 / 2 ^ 48 :: real"
  have p: "padded64 ?v (max (length ?v) (length ?v)) = ?v" by (simp add: padded64_def)
  have s: "sum64 (map2 f64_mul ?v ?v) = Finite 26" by (simp add: sum64_def)
  have n: "norm64 ?v = Finite ?s" unfolding norm64_def s by (simp add: round64_sqrt_26)
  have d: "f64_mul (Finite ?s) (Finite ?s) = Finite ?d"
    by (simp only: f64_mul.simps round64_square)
  have nz: "?d \<noteq> 0" by simp
  have q: "f64_div (Finite 26) (Finite ?d) = Finite (1 + 1 / 2 ^ 52)"
    by (simp only: f64_div.simps nz if_False round64_quotient)
  have nz': "Finite ?d \<noteq> Finite 0" using nz by simp
  show ?thesis
    unfolding cosine64_closed_form Let_def p n d s using nz' q by (simp only: if_False)
qed

lemma round64_overflow_example: "round64 (2 ^ 600 * 2 ^ 600) = Infinity True"
  by (rule round64_huge) (simp add: powr_numeral)

lemma round64_underflow_example: "round64 (1 / 2 ^ 600 * (1 / 2 ^ 600)) = Finite 0"
  by (rule round64_tiny) (simp_all add: powr_neg_numeral)

text \<open>
  C2, amended. For arrays \<open>a\<close> and \<open>b\<close> of any lengths the similarity is computed without a
  fault: the shorter array is padded with zeros to the length of the longer, no index is read
  outside the padded arrays, and the result is 0 when the computed denominator is 0,
  otherwise the binary64 quotient of the accumulated dot product by that denominator, so
  nothing is divided by 0. An argument that is missing or no array gives 0. When the computed
  norm of one array is 0, in particular when the array is all zeros, and the computed
  norm of the other is finite, the result is 0. No bound on the quotient is stated.
\<close>

theorem cosine_similarity_binary64:
  "calculateCosineSimilarity64 (Vec64 a) (Vec64 b) =
     (let n = max (length a) (length b);
          a' = padded64 a n;
          b' = padded64 b n;
          den = f64_mul (norm64 a') (norm64 b')
      in if den = Finite 0 then Finite 0 else f64_div (sum64 (map2 f64_mul a' b')) den)
   \<and> pad_zeros64 a (max (length a) (length b)) = padded64 a (max (length a) (length b))
   \<and> pad_zeros64 b (max (length a) (length b)) = padded64 b (max (length a) (length b))
   \<and> length (padded64 a (max (length a) (length b))) = max (length a) (length b)
   \<and> length (padded64 b (max (length a) (length b))) = max (length a) (length b)
   \<and> calculateCosineSimilarity64 Missing64 y = Finite 0
   \<and> calculateCosineSimilarity64 NotArray64 y = Finite 0
   \<and> calculateCosineSimilarity64 x Missing64 = Finite 0
   \<and> calculateCosineSimilarity64 x NotArray64 = Finite 0
   \<and> (norm64 (padded64 a (max (length a) (length b))) = Finite 0
          \<and> norm64 (padded64 b (max (length a) (length b))) = Finite r
        \<or> norm64 (padded64 a (max (length a) (length b))) = Finite r
          \<and> norm64 (padded64 b (max (length a) (length b))) = Finite 0
        \<longrightarrow> calculateCosineSimilarity64 (Vec64 a) (Vec64 b) = Finite 0)
   \<and> ((\<forall>v\<in>set a. v = Finite 0) \<and> norm64 (padded64 b (max (length a) (length b))) = Finite r
        \<or> norm64 (padded64 a (max (length a) (length b))) = Finite r \<and> (\<forall>v\<in>set b. v = Finite 0)
        \<longrightarrow> calculateCosineSimilarity64 (Vec64 a) (Vec64 b) = Finite 0)"
proof -
  let ?n = "max (length a) (length b)"
  have c1: "length (padded64 a ?n) = ?n" "length (padded64 b ?n) = ?n"
    by (simp_all add: length_padded64)
  have c2: "calculateCosineSimilarity64 Missing64 y = Finite 0"
    "calculateCosineSimilarity64 NotArray64 y = Finite 0"
    by simp_all
  have c3: "calculateCosineSimilarity64 x Missing64 = Finite 0"
    "calculateCosineSimilarity64 x NotArray64 = Finite 0"
    by (cases x; simp)+
  have c4: "norm64 (padded64 a ?n) = Finite 0 \<and> norm64 (padded64 b ?n) = Finite r
        \<or> norm64 (padded64 a ?n) = Finite r \<and> norm64 (padded64 b ?n) = Finite 0
        \<longrightarrow> calculateCosineSimilarity64 (Vec64 a) (Vec64 b) = Finite 0"
    using cosine64_zero_norm [of a b r] by blast
  have c5: "(\<forall>v\<in>set a. v = Finite 0) \<and> norm64 (padded64 b ?n) = Finite r
        \<or> norm64 (padded64 a ?n) = Finite r \<and> (\<forall>v\<in>set b. v = Finite 0)
        \<longrightarrow> calculateCosineSimilarity64 (Vec64 a) (Vec64 b) = Finite 0"
    using c4 norm64_zeros [of a ?n] norm64_zeros [of b ?n] by blast
  from cosine64_closed_form [of a b] pad_zeros64_eq [of a ?n] pad_zeros64_eq [of b ?n] c1 c2 c3 c4 c5
  show ?thesis by (intro conjI)
qed

theorem cosine_similarity_binary64_witness:
  "norm64 (padded64 [Finite 5] 2) = Finite 5
   \<and> calculateCosineSimilarity64 (Vec64 [Finite 0, Finite 0]) (Vec64 [Finite 5]) = Finite 0
   \<and> norm64 (padded64 [Finite (1 / 2 ^ 600)] 1) = Finite 0
   \<and> norm64 (padded64 [Finite 1] 1) = Finite 1
   \<and> calculateCosineSimilarity64 (Vec64 [Finite (1 / 2 ^ 600)]) (Vec64 [Finite 1]) = Finite 0
   \<and> calculateCosineSimilarity64 (Vec64 [Finite 3, Finite 4]) (Vec64 [Finite 3])
       = Finite (5404319552844595 / 2 ^ 53)"
proof -
  let ?z = "[Finite 0, Finite 0]" and ?f = "[Finite 5]"
  let ?t = "[Finite (1 / 2 ^ 600)]" and ?u = "[Finite 1]"
  have n5: "norm64 (padded64 ?f 2) = Finite 5"
    by (simp add: norm64_def sum64_def padded64_def sqrt_values)
  then have n5': "norm64 (padded64 ?f (max (length ?z) (length ?f))) = Finite 5"
    by (simp add: numeral_2_eq_2)
  have z: "\<forall>v\<in>set ?z. v = Finite 0" by simp
  have zero: "calculateCosineSimilarity64 (Vec64 ?z) (Vec64 ?f) = Finite 0"
    using cosine_similarity_binary64 [where a = ?z and b = ?f and r = 5] z n5' by blast
  have nt: "norm64 (padded64 ?t 1) = Finite 0"
    using round64_underflow_example by (simp add: norm64_def sum64_def padded64_def)
  then have nt': "norm64 (padded64 ?t (max (length ?t) (length ?u))) = Finite 0" by simp
  have n1: "norm64 (padded64 ?u 1) = Finite 1"
    by (simp add: norm64_def sum64_def padded64_def)
  then have n1': "norm64 (padded64 ?u (max (length ?t) (length ?u))) = Finite 1" by simp
  have tiny: "calculateCosineSimilarity64 (Vec64 ?t) (Vec64 ?u) = Finite 0"
    using cosine_similarity_binary64 [where a = ?t and b = ?u and r = 1] nt' n1' by blast
  have "calculateCosineSimilarity64 (Vec64 [Finite 3, Finite 4]) (Vec64 [Finite 3])
          = Finite (5404319552844595 / 2 ^ 53)"
    using cosine_similarity_binary64 [where a = "[Finite 3, Finite 4]" and b = "[Finite 3]", THEN conjunct1]
      round64_three_fifths
    by (simp add: norm64_def sum64_def padded64_def sqrt_values
          del: calculateCosineSimilarity64.simps)
  with n5 zero nt n1 tiny show ?thesis by (intro conjI)
qed

text \<open>
  C2 as stated fails in both of its bounds. The similarity of the array \<^verbatim>\<open>[1, 5]\<close> with
  itself is \<open>1 + 2\<^sup>-\<^sup>5\<^sup>2\<close>, above 1: both norms are the binary64 square root of 26, their
  product is rounded to \<^verbatim>\<open>25.999999999999996\<close>, and 26 divided by it is rounded up. An
  all-zero array against an array whose squares overflow gives NaN, not 0: the denominator
  is 0 times infinity, which is NaN and fails the test \<^verbatim>\<open>denominator === 0\<close>.
\<close>

theorem cosine_similarity_rounding_counterexample:
  "calculateCosineSimilarity64 (Vec64 [Finite 1, Finite 5]) (Vec64 [Finite 1, Finite 5])
     = Finite (1 + 1 / 2 ^ 52)
   \<and> (1::real) < 1 + 1 / 2 ^ 52
   \<and> calculateCosineSimilarity64 (Vec64 [Finite 0]) (Vec64 [Finite (2 ^ 600)]) = NaN
   \<and> calculateCosineSimilarity64 (Vec64 [Finite (2 ^ 600)]) (Vec64 [Finite (2 ^ 600)]) = NaN"
proof -
  have "calculateCosineSimilarity64 (Vec64 [Finite 0]) (Vec64 [Finite (2 ^ 600)]) = NaN"
    using round64_overflow_example
    by (simp add: cosine64_closed_form norm64_def sum64_def padded64_def
          del: calculateCosineSimilarity64.simps)
  moreover have "calculateCosineSimilarity64 (Vec64 [Finite (2 ^ 600)]) (Vec64 [Finite (2 ^ 600)]) = NaN"
    using round64_overflow_example
    by (simp add: cosine64_closed_form norm64_def sum64_def padded64_def
          del: calculateCosineSimilarity64.simps)
  moreover have "(1::real) < 1 + 1 / 2 ^ 52" by simp
  ultimately show ?thesis using cosine64_self_1_5 by (intro conjI)
qed

section \<open>Search returns the ranked matching passages\<close>

lemma similarity_with_similarity [simp]: "similarity (with_similarity v s) = s"
  and documentId_with_similarity [simp]: "documentId (with_similarity v s) = documentId v"
  and content_with_similarity [simp]: "content (with_similarity v s) = content v"
  and metadata_with_similarity [simp]: "metadata (with_similarity v s) = metadata v"
  and id_with_similarity [simp]: "vector_entry.id (with_similarity v s) = vector_entry.id v"
  by (simp_all add: with_similarity_def vector_entry.defs search_result.defs)

lemma scan_vectors_filter:
  "scan_vectors q docs m vs acc = acc @ map (scored q) (filter (passes q docs m) (map snd vs))"
proof (induction vs arbitrary: acc)
  case Nil
  show ?case by simp
next
  case (Cons kv vs)
  then show ?case
    by (cases kv) (simp add: passes_def scored_def Let_def split: option.splits)
qed

lemma sorted_desc_sort_key:
  "sorted_wrt (\<lambda>x y. f y \<le> (f x :: real)) (sort_key (\<lambda>r. - f r) xs)"
proof -
  have "sorted (map (\<lambda>r. - f r) (sort_key (\<lambda>r. - f r) xs))" by (rule sorted_sort_key)
  then show ?thesis by (simp add: sorted_map)
qed

lemma stable_desc_sort_key:
  "filter (\<lambda>r. f r = (s::real)) (sort_key (\<lambda>r. - f r) xs) = filter (\<lambda>r. f r = s) xs"
  using sort_key_stable [of "\<lambda>r. - f r" "- s" xs] by simp

lemma length_slice0: "0 \<le> k \<Longrightarrow> length (slice0 k xs) = min (nat k) (length xs)"
  by (simp add: slice0_def)

lemma set_slice0: "set (slice0 k xs) \<subseteq> set xs"
  by (auto simp: slice0_def dest: in_set_takeD)

lemma slice0_nonneg: "0 \<le> k \<Longrightarrow> slice0 k xs = take (nat k) xs"
  by (simp add: slice0_def)

lemma search_as_sort:
  "searchWithEmbedding this q docs filters =
     slice0 (or_default (search_filters.topK filters) 10)
       (sort_key (\<lambda>r. - similarity r)
          (map (scored q) (filter (passes q docs (or_default (minSimilarity filters) (1 / 10)))
                                  (map snd (vectors this)))))"
  by (simp add: searchWithEmbedding_def Let_def scan_vectors_filter)

lemma search_members:
  assumes "r \<in> set (searchWithEmbedding this q docs filters)"
  shows "\<exists>v \<in> snd ` set (vectors this). r = scored q v
            \<and> passes q docs (or_default (minSimilarity filters) (1 / 10)) v"
proof -
  let ?matching = "map (scored q) (filter (passes q docs (or_default (minSimilarity filters) (1 / 10)))
                                  (map snd (vectors this)))"
  have "set (searchWithEmbedding this q docs filters) \<subseteq> set (sort_key (\<lambda>r. - similarity r) ?matching)"
    by (subst search_as_sort) (rule set_slice0)
  with assms have "r \<in> set (sort_key (\<lambda>r. - similarity r) ?matching)" by (rule subsetD [rotated])
  then have "r \<in> set ?matching" by (simp only: set_sort)
  then show ?thesis by auto
qed

text \<open>
  C1, amended. A threshold that is absent or 0 counts as 0.1 and a \<open>topK\<close> that is absent
  or 0 counts as 10. With these two values \<open>m\<close> and \<open>k\<close>, the matching passages are the
  stored passages, in insertion order, whose similarity to the query is at least \<open>m\<close> and,
  when a list of document ids is given, whose document is in the list. The ranked list
  holds exactly the matching passages, in descending order of similarity, passages of equal
  similarity in insertion order. For positive \<open>k\<close> the search returns the first \<open>k\<close> entries
  of the ranked list. Every passage returned reaches \<open>m\<close> and belongs to a listed document.
\<close>

theorem search_ranked:
  "(let m = or_default (minSimilarity filters) (1 / 10);
        k = or_default (search_filters.topK filters) 10;
        matching = map (scored q) (filter (passes q docs m) (map snd (vectors this)));
        ranked = sort_key (\<lambda>r. - similarity r) matching;
        found = searchWithEmbedding this q docs filters
    in mset ranked = mset matching
       \<and> sorted_wrt (\<lambda>x y. similarity y \<le> similarity x) ranked
       \<and> (\<forall>s. filter (\<lambda>r. similarity r = s) ranked = filter (\<lambda>r. similarity r = s) matching)
       \<and> (0 < k \<longrightarrow> found = take (nat k) ranked \<and> length found \<le> nat k)
       \<and> (\<forall>r \<in> set found. m \<le> similarity r
             \<and> (case docs of None \<Rightarrow> True | Some ids \<Rightarrow> documentId r \<in> set ids)))"
proof -
  let ?m = "or_default (minSimilarity filters) (1 / 10)"
  let ?k = "or_default (search_filters.topK filters) 10"
  let ?matching = "map (scored q) (filter (passes q docs ?m) (map snd (vectors this)))"
  let ?ranked = "sort_key (\<lambda>r. - similarity r) ?matching"
  let ?found = "searchWithEmbedding this q docs filters"
  have found: "?found = slice0 ?k ?ranked"
    by (rule search_as_sort)
  have a: "mset ?ranked = mset ?matching" by simp
  have b: "sorted_wrt (\<lambda>x y. similarity y \<le> similarity x) ?ranked"
    by (rule sorted_desc_sort_key)
  have c: "\<forall>s. filter (\<lambda>r. similarity r = s) ?ranked = filter (\<lambda>r. similarity r = s) ?matching"
    by (simp add: stable_desc_sort_key)
  have d: "0 < ?k \<longrightarrow> ?found = take (nat ?k) ?ranked \<and> length ?found \<le> nat ?k"
    by (simp add: found slice0_nonneg)
  have e: "\<forall>r \<in> set ?found. ?m \<le> similarity r
             \<and> (case docs of None \<Rightarrow> True | Some ids \<Rightarrow> documentId r \<in> set ids)"
  proof
    fix r assume "r \<in> set ?found"
    then obtain v where "r = scored q v" "passes q docs ?m v"
      using search_members by blast
    then show "?m \<le> similarity r \<and> (case docs of None \<Rightarrow> True | Some ids \<Rightarrow> documentId r \<in> set ids)"
      by (simp add: passes_def scored_def split: option.splits)
  qed
  show ?thesis unfolding Let_def by (intro conjI a b c d e)
qed

lemma example_similarities:
  "calculateCosineSimilarity (Vec [1, 0]) (Vec [0, 1]) = 0"
  "calculateCosineSimilarity (Vec [1, 0]) (Vec [3, 4]) = 3 / 5"
  "calculateCosineSimilarity (Vec [1, 0]) (Vec [2]) = 1"
  "calculateCosineSimilarity (Vec [1, 0]) (Vec [5, 0, 0]) = 1"
  by (simp_all add: cosine_closed_form sqrt_values del: calculateCosineSimilarity.simps)

theorem search_ranked_witness:
  "map vector_entry.id
     (searchWithEmbedding example_store (Vec [1, 0]) None \<lparr>minSimilarity = None, topK = Some 2\<rparr>)
   = [''2_0'', ''2_1'']
   \<and> map vector_entry.id
     (searchWithEmbedding example_store (Vec [1, 0]) (Some [''1'']) \<lparr>minSimilarity = None, topK = None\<rparr>)
   = [''1_1'']"
proof -
  have "searchWithEmbedding example_store (Vec [1, 0]) None \<lparr>minSimilarity = None, topK = Some 2\<rparr>
        = take (nat 2) (sort_key (\<lambda>r. - similarity r) (map (scored (Vec [1, 0]))
            (filter (passes (Vec [1, 0]) None (1 / 10)) (map snd (vectors example_store)))))"
    using search_ranked [of "\<lparr>minSimilarity = None, topK = Some 2\<rparr>" "Vec [1, 0]" None example_store]
    by (simp add: Let_def or_default_def)
  moreover have "searchWithEmbedding example_store (Vec [1, 0]) (Some [''1'']) \<lparr>minSimilarity = None, topK = None\<rparr>
        = take (nat 10) (sort_key (\<lambda>r. - similarity r) (map (scored (Vec [1, 0]))
            (filter (passes (Vec [1, 0]) (Some [''1'']) (1 / 10)) (map snd (vectors example_store)))))"
    using search_ranked [of "\<lparr>minSimilarity = None, topK = None\<rparr>" "Vec [1, 0]" "Some [''1'']" example_store]
    by (simp add: Let_def or_default_def)
  ultimately show ?thesis
    by (simp add: example_store_def example_entry_def passes_def scored_def example_similarities del: calculateCosineSimilarity.simps)
qed

text \<open>
  C1 as stated fails for the threshold 0: a passage of similarity 0 is at least 0, and the
  search, which reads 0 as 0.1, does not return it.
\<close>

theorem search_zero_threshold_counterexample:
  "searchWithEmbedding
      \<lparr>vectors =
         [(''1_0'', \<lparr>vector_entry.id = ''1_0'', documentId = ''1'', chunkId = 0, content = ''alpha'',
             metadata = None, type = ''application/pdf'', embedding = [0, 1],
             embeddingModel = ''fallback''\<rparr>)],
       documents = [], hf = None\<rparr>
      (Vec [1, 0]) None \<lparr>minSimilarity = Some 0, topK = Some 5\<rparr> = []
   \<and> (0::real) \<le> calculateCosineSimilarity (Vec [1, 0]) (Vec [0, 1])"
  by (simp add: search_as_sort or_default_def passes_def scored_def slice0_def example_similarities
        del: calculateCosineSimilarity.simps)

section \<open>The hash embedding of the empty text\<close>

lemma length_bump [simp]: "length (bump d i e) = length e"
  by (simp add: bump_def)

lemma bump_mono: "0 \<le> d \<Longrightarrow> j < length e \<Longrightarrow> e ! j \<le> bump d i e ! j"
  by (cases "i = j") (simp_all add: bump_def)

lemma bump_hit: "i < length e \<Longrightarrow> bump d i e ! i = e ! i + d"
  by (simp add: bump_def)

lemma bump_nonneg:
  assumes "0 \<le> d" "\<forall>j<length e. 0 \<le> e ! j"
  shows "\<forall>j<length (bump d i e). 0 \<le> bump d i e ! j"
proof (intro allI impI)
  fix j assume "j < length (bump d i e)"
  then have j: "j < length e" by simp
  with assms(2) have "0 \<le> e ! j" by simp
  also have "\<dots> \<le> bump d i e ! j" using assms(1) j by (rule bump_mono)
  finally show "0 \<le> bump d i e ! j" .
qed

lemma fold_bump_length [simp]: "length (fold (\<lambda>x. bump d (g x)) xs e) = length e"
  by (induction xs arbitrary: e) simp_all

lemma fold_bump_mono:
  "0 \<le> d \<Longrightarrow> j < length e \<Longrightarrow> e ! j \<le> fold (\<lambda>x. bump d (g x)) xs e ! j"
proof (induction xs arbitrary: e)
  case Nil
  show ?case by simp
next
  case (Cons a xs)
  have "e ! j \<le> bump d (g a) e ! j" using Cons.prems by (simp add: bump_mono)
  also have "\<dots> \<le> fold (\<lambda>x. bump d (g x)) xs (bump d (g a) e) ! j"
    using Cons.prems by (intro Cons.IH) simp_all
  finally show ?case by simp
qed

lemma fold_bump_nonneg:
  "0 \<le> d \<Longrightarrow> \<forall>j<length e. 0 \<le> e ! j \<Longrightarrow>
   \<forall>j<length e. 0 \<le> fold (\<lambda>x. bump d (g x)) xs e ! j"
  using fold_bump_mono [of d _ e g xs] by (meson order_trans)

lemma fold_bump_hit:
  assumes "0 \<le> d" "x \<in> set xs" "g x < length e" "\<forall>j<length e. 0 \<le> e ! j"
  shows "d \<le> fold (\<lambda>x. bump d (g x)) xs e ! g x"
  using assms(2-4)
proof (induction xs arbitrary: e)
  case Nil
  then show ?case by simp
next
  case (Cons a xs)
  let ?e = "bump d (g a) e"
  have nn: "\<forall>j<length ?e. 0 \<le> ?e ! j" using bump_nonneg [OF assms(1) Cons.prems(3)] .
  show ?case
  proof (cases "x = a")
    case True
    have "d \<le> e ! g x + d" using Cons.prems by simp
    also have "\<dots> = ?e ! g x" using Cons.prems True by (simp add: bump_hit)
    also have "\<dots> \<le> fold (\<lambda>x. bump d (g x)) xs ?e ! g x"
      using Cons.prems assms(1) by (intro fold_bump_mono) simp_all
    finally show ?thesis by simp
  next
    case False
    with Cons.prems have "x \<in> set xs" by simp
    from Cons.IH [OF this _ nn] Cons.prems show ?thesis by simp
  qed
qed

lemma magnitude_sum_list: "magnitude e = sqrt (sum_list (map (\<lambda>x. x * x) e))"
proof -
  have "foldl (\<lambda>sum val. sum + val * val) a e = a + sum_list (map (\<lambda>x. x * x) e)" for a :: real
    by (induction e arbitrary: a) simp_all
  then show ?thesis by (simp add: magnitude_def)
qed

lemma magnitude_pos:
  assumes "j < length e" "0 < e ! j"
  shows "0 < magnitude e"
proof -
  have "e ! j \<in> set e" using assms(1) by simp
  with assms(2) have "\<not> (\<forall>x\<in>set e. x = 0)" by force
  then have "sum_list (map (\<lambda>x. x * x) e) \<noteq> 0" by (simp add: sum_list_squares_zero_iff)
  moreover have "0 \<le> sum_list (map (\<lambda>x. x * x) e)" by (rule sum_list_nonneg) auto
  ultimately show ?thesis by (simp add: magnitude_sum_list)
qed

lemma split_scan_nonempty: "split_scan b cur s \<noteq> []"
  by (induction s arbitrary: b cur) simp_all

lemma split_whitespace_nonempty: "split_whitespace s \<noteq> []"
  by (simp add: split_whitespace_def split_scan_nonempty)

lemma wordIndex_less: "wordIndex w < 384"
  by (simp add: wordIndex_def)

lemma zeros_nonneg: "\<forall>j<length (replicate n (0::real)). 0 \<le> replicate n (0::real) ! j"
  by simp

lemma length_VectorStore_hashCounts: "length (VectorStore_hashCounts t) = 384"
  by (simp add: VectorStore_hashCounts_def addChars_def addWords_def Let_def)

lemma length_RAGPipeline_hashCounts: "length (RAGPipeline_hashCounts t) = 384"
  by (simp add: RAGPipeline_hashCounts_def addWords_def)

lemma addWords_nonneg:
  "\<forall>j<length e. 0 \<le> e ! j \<Longrightarrow> \<forall>j<length e. 0 \<le> addWords ws e ! j"
  unfolding addWords_def by (rule fold_bump_nonneg) simp_all

lemma addChars_hit:
  assumes "i < min (length t) 100" "length e = 384" "\<forall>j<length e. 0 \<le> e ! j"
  shows "1 / 10 \<le> addChars t e ! ((of_char (t ! i) * i) mod 384)"
  unfolding addChars_def
  using fold_bump_hit [of "1 / 10" i "[0..<min (length t) 100]" "\<lambda>i. (of_char (t ! i) * i) mod 384" e] assms
  by simp

lemma VectorStore_hashCounts_hit:
  assumes "i < min (length (if t = [] then ''default text'' else t)) 100"
  shows "1 / 10 \<le> VectorStore_hashCounts t ! ((of_char ((if t = [] then ''default text'' else t) ! i) * i) mod 384)"
  unfolding VectorStore_hashCounts_def Let_def
  by (rule addChars_hit [OF assms]) (simp_all add: addWords_def addWords_nonneg [unfolded addWords_def])

lemma VectorStore_magnitude_pos: "0 < magnitude (VectorStore_hashCounts t)"
proof -
  have "0 < min (length (if t = [] then ''default text'' else t)) 100" by simp
  from VectorStore_hashCounts_hit [OF this]
  have "1 / 10 \<le> VectorStore_hashCounts t ! 0" by simp
  then have "0 < VectorStore_hashCounts t ! 0" by simp
  then show ?thesis by (intro magnitude_pos [of 0]) (simp_all add: length_VectorStore_hashCounts)
qed

lemma VectorStore_embedding_eq:
  "VectorStore_simpleHashEmbedding s t =
     map (\<lambda>val. val / magnitude (VectorStore_hashCounts t)) (VectorStore_hashCounts t)"
  using VectorStore_magnitude_pos [of t] by (simp add: VectorStore_simpleHashEmbedding_def Let_def)

lemma replicate_384: "replicate 384 (0::real) = 0 # replicate 383 0"
proof -
  have "(384::nat) = Suc 383" by simp
  then show ?thesis by (simp only: replicate_Suc)
qed

lemma RAGPipeline_empty_text: "RAGPipeline_simpleHashEmbedding p [] = 1 # replicate 383 0"
proof -
  have "wordIndex [] = 0" by (simp add: wordIndex_def wordHash_def)
  then have c: "RAGPipeline_hashCounts [] = 1 # replicate 383 0"
    by (simp add: RAGPipeline_hashCounts_def split_whitespace_def toLowerCase_def addWords_def
          bump_def replicate_384)
  have "magnitude (1 # replicate 383 0) = 1"
    by (simp add: magnitude_sum_list sum_list_replicate)
  then show ?thesis by (simp add: RAGPipeline_simpleHashEmbedding_def c)
qed

text \<open>
  C5. At the empty text the two hash embeddings differ. The store's version replaces the
  empty text by \<^verbatim>\<open>'default text'\<close> in its first guard, so the magnitude it tests is not 0, the
  branch commented \<^verbatim>\<open>Fallback for empty text\<close> is not taken, and the result is the embedding
  of \<^verbatim>\<open>'default text'\<close>: 384 entries, the one at index 101 (the second character) positive,
  so not the unit vector with a single 1 at index 0. The pipeline's version returns that
  unit vector.
\<close>

theorem hash_embedding_empty_text_default:
  "VectorStore_simpleHashEmbedding s [] = VectorStore_simpleHashEmbedding s ''default text''
   \<and> magnitude (VectorStore_hashCounts []) \<noteq> 0
   \<and> length (VectorStore_simpleHashEmbedding s []) = 384
   \<and> 0 < VectorStore_simpleHashEmbedding s [] ! 101
   \<and> VectorStore_simpleHashEmbedding s [] \<noteq> 1 # replicate 383 0
   \<and> RAGPipeline_simpleHashEmbedding p [] = 1 # replicate 383 0"
proof -
  have d: "VectorStore_simpleHashEmbedding s [] = VectorStore_simpleHashEmbedding s ''default text''"
    by (simp add: VectorStore_simpleHashEmbedding_def VectorStore_hashCounts_def)
  have m: "magnitude (VectorStore_hashCounts []) \<noteq> 0"
    using VectorStore_magnitude_pos [of "[]"] by simp
  have l: "length (VectorStore_simpleHashEmbedding s []) = 384"
    by (simp add: VectorStore_embedding_eq length_VectorStore_hashCounts)
  have "(1::nat) < min (length (if [] = [] then ''default text'' else [])) 100" by simp
  from VectorStore_hashCounts_hit [OF this]
  have "1 / 10 \<le> VectorStore_hashCounts [] ! 101" by simp
  then have "0 < VectorStore_hashCounts [] ! 101 / magnitude (VectorStore_hashCounts [])"
    using VectorStore_magnitude_pos [of "[]"] by simp
  moreover have "VectorStore_simpleHashEmbedding s [] ! 101
                 = VectorStore_hashCounts [] ! 101 / magnitude (VectorStore_hashCounts [])"
    by (simp add: VectorStore_embedding_eq length_VectorStore_hashCounts)
  ultimately have pos: "0 < VectorStore_simpleHashEmbedding s [] ! 101" by simp
  have ne: "VectorStore_simpleHashEmbedding s [] \<noteq> 1 # replicate 383 0"
  proof
    assume "VectorStore_simpleHashEmbedding s [] = 1 # replicate 383 0"
    then have "VectorStore_simpleHashEmbedding s [] ! 101 = (1 # replicate 383 (0::real)) ! 101"
      by simp
    also have "\<dots> = 0" by simp
    finally show False using pos by simp
  qed
  from d m l pos ne RAGPipeline_empty_text [of p] show ?thesis by (intro conjI)
qed

section \<open>The hash embedding depends on the text alone\<close>

text \<open>
  C4. The two hash embeddings are functions of the text: whatever the store or the
  pipeline holds, the same text gives the same vector, entry for entry. The same holds
  for the embedding of a passage and of a query when no provider is configured, which is
  where the fallback is the whole computation.
\<close>

theorem hash_embedding_deterministic:
  "VectorStore_simpleHashEmbedding s1 t = VectorStore_simpleHashEmbedding s2 t
   \<and> RAGPipeline_simpleHashEmbedding p1 t = RAGPipeline_simpleHashEmbedding p2 t
   \<and> (VectorStore.hf s1 = None \<and> VectorStore.hf s2 = None
        \<longrightarrow> generateEmbedding s1 t = generateEmbedding s2 t)
   \<and> (RAGPipeline.hf p1 = None \<and> RAGPipeline.hf p2 = None
        \<longrightarrow> generateQueryEmbedding p1 t = generateQueryEmbedding p2 t)"
  by (simp add: VectorStore_simpleHashEmbedding_def RAGPipeline_simpleHashEmbedding_def
        generateEmbedding_def generateQueryEmbedding_def)

theorem hash_embedding_deterministic_witness:
  "generateEmbedding example_store ''alpha beta'' =
     generateEmbedding \<lparr>vectors = [], documents = [], hf = None\<rparr> ''alpha beta''
   \<and> generateQueryEmbedding (new_RAGPipeline example_store None None None None) ''alpha beta'' =
     generateQueryEmbedding (new_RAGPipeline \<lparr>vectors = [], documents = [], hf = None\<rparr>
                               (Some 3) None None (Some (1 / 2))) ''alpha beta''"
  using hash_embedding_deterministic [of example_store "''alpha beta''"
          "\<lparr>vectors = [], documents = [], hf = None\<rparr>"
          "new_RAGPipeline example_store None None None None"
          "new_RAGPipeline \<lparr>vectors = [], documents = [], hf = None\<rparr> (Some 3) None None (Some (1 / 2))"]
  by (simp add: example_store_def new_RAGPipeline_def)

section \<open>Reranking by the composite score\<close>

lemma finite_wordSet [simp]: "finite (wordSet s)"
  by (simp add: wordSet_def)

lemma wordSet_nonempty: "wordSet s \<noteq> {}"
  by (simp add: wordSet_def split_whitespace_nonempty)

lemma card_wordSet_pos: "0 < card (wordSet s)"
  by (simp add: card_gt_0_iff wordSet_nonempty)

lemma filter_mem_Int: "Set.filter (\<lambda>x. x \<in> B) A = A \<inter> B"
  by auto

lemma Collect_mem_Int: "{a \<in> A. a \<in> B} = A \<inter> B"
  by auto

lemma relevance_closed_form:
  "calculateChunkRelevance q c =
     4 / 10 * (real (card (wordSet q \<inter> wordSet (content c))) / real (card (wordSet q)))
     + 4 / 10 * similarity c
     + 1 / 10 * min (real (length (content c)) / 500) 1
     + (if \<exists>md. metadata c = Some md \<and> semanticChunk md then 1 / 10 else 0)"
  by (cases "metadata c") (simp_all add: calculateChunkRelevance_def Let_def Collect_mem_Int)

lemma query_sources:
  assumes "searchWithEmbedding (vectorStore p) (generateQueryEmbedding p q) docs (search_options p f) \<noteq> []"
  shows "sources (query p q docs f) =
         map to_source (slice0 (RAGPipeline.topK p)
           (rerank q (searchWithEmbedding (vectorStore p) (generateQueryEmbedding p q) docs
                        (search_options p f))))"
  using assms by (simp add: query_def Let_def preprocessQuery_def)

lemma query_sources_empty:
  assumes "searchWithEmbedding (vectorStore p) (generateQueryEmbedding p q) docs (search_options p f) = []"
  shows "sources (query p q docs f) = []"
  using assms by (simp add: query_def Let_def preprocessQuery_def)

lemma query_sources_length:
  assumes "0 \<le> RAGPipeline.topK p"
  shows "length (sources (query p q docs f)) \<le> nat (RAGPipeline.topK p)"
proof (cases "searchWithEmbedding (vectorStore p) (generateQueryEmbedding p q) docs (search_options p f) = []")
  case True
  then show ?thesis by (simp add: query_sources_empty)
next
  case False
  then show ?thesis using assms by (simp add: query_sources length_slice0)
qed

text \<open>
  C3, amended. The composite score of a candidate is 0.4 * wordOverlap + 0.4 *
  vectorSimilarity + 0.1 * lengthScore + metadataBonus, where wordOverlap is the share of
  the query's words found among the passage's words, the words of a text being all the
  pieces of the lower-cased text between runs of white space (stop words, short pieces and
  an empty piece included; the set of the query's words is never empty), vectorSimilarity
  is the similarity that the search attached, lengthScore is min(length / 500, 1) and
  metadataBonus is 0.1 exactly when the metadata mark a semantic chunk. Reranking holds
  the same candidates in descending order of the score, candidates of equal score in their
  former order. When the search finds something, the sources of the result are the first
  \<open>topK\<close> reranked candidates, and the constructor sets \<open>topK\<close> to 5 when none is configured.
\<close>

theorem rerank_composite_score:
  "calculateChunkRelevance q c =
     4 / 10 * (real (card (wordSet q \<inter> wordSet (content c))) / real (card (wordSet q)))
     + 4 / 10 * similarity c
     + 1 / 10 * min (real (length (content c)) / 500) 1
     + (if \<exists>md. metadata c = Some md \<and> semanticChunk md then 1 / 10 else 0)
   \<and> 0 < card (wordSet q)
   \<and> mset (rerank q cs) = mset cs
   \<and> sorted_wrt (\<lambda>x y. calculateChunkRelevance q y \<le> calculateChunkRelevance q x) (rerank q cs)
   \<and> (\<forall>s. filter (\<lambda>x. calculateChunkRelevance q x = s) (rerank q cs)
          = filter (\<lambda>x. calculateChunkRelevance q x = s) cs)
   \<and> (searchWithEmbedding (vectorStore p) (generateQueryEmbedding p q) docs (search_options p f) \<noteq> []
        \<longrightarrow> sources (query p q docs f) =
            map to_source (slice0 (RAGPipeline.topK p)
              (rerank q (searchWithEmbedding (vectorStore p) (generateQueryEmbedding p q) docs
                           (search_options p f)))))
   \<and> (0 \<le> RAGPipeline.topK p \<longrightarrow> length (sources (query p q docs f)) \<le> nat (RAGPipeline.topK p))
   \<and> RAGPipeline.topK (new_RAGPipeline st None mc cl th) = 5"
proof -
  have a: "mset (rerank q cs) = mset cs" by (simp add: rerank_def)
  have b: "sorted_wrt (\<lambda>x y. calculateChunkRelevance q y \<le> calculateChunkRelevance q x) (rerank q cs)"
    unfolding rerank_def by (rule sorted_desc_sort_key)
  have c: "\<forall>s. filter (\<lambda>x. calculateChunkRelevance q x = s) (rerank q cs)
          = filter (\<lambda>x. calculateChunkRelevance q x = s) cs"
    unfolding rerank_def by (simp add: stable_desc_sort_key)
  have d: "RAGPipeline.topK (new_RAGPipeline st None mc cl th) = 5"
    by (simp add: new_RAGPipeline_def or_default_def)
  show ?thesis
    by (intro conjI impI relevance_closed_form card_wordSet_pos a b c d query_sources query_sources_length)
qed

lemma example_search:
  "searchWithEmbedding example_store (Vec [1, 0]) None \<lparr>minSimilarity = Some (1 / 10), topK = Some 5\<rparr>
   = [with_similarity (snd (example_entry ''2_0'' ''2'' 0 ''gamma'' [2])) 1,
      with_similarity (snd (example_entry ''2_1'' ''2'' 1 ''delta'' [5, 0, 0])) 1,
      with_similarity (snd (example_entry ''1_1'' ''1'' 1 ''beta'' [3, 4])) (3 / 5)]"
  by (simp add: search_as_sort or_default_def slice0_def example_store_def example_entry_def
        passes_def scored_def example_similarities del: calculateCosineSimilarity.simps)

lemma example_words:
  "card (wordSet ''beta gamma'') = 2"
  "card (wordSet ''beta gamma'' \<inter> wordSet ''gamma'') = 1"
  "card (wordSet ''beta gamma'' \<inter> wordSet ''delta'') = 0"
  "card (wordSet ''beta gamma'' \<inter> wordSet ''beta'') = 1"
  by code_simp+

lemma example_rerank:
  "rerank ''beta gamma''
     [with_similarity (snd (example_entry ''2_0'' ''2'' 0 ''gamma'' [2])) 1,
      with_similarity (snd (example_entry ''2_1'' ''2'' 1 ''delta'' [5, 0, 0])) 1,
      with_similarity (snd (example_entry ''1_1'' ''1'' 1 ''beta'' [3, 4])) (3 / 5)]
   = [with_similarity (snd (example_entry ''2_0'' ''2'' 0 ''gamma'' [2])) 1,
      with_similarity (snd (example_entry ''1_1'' ''1'' 1 ''beta'' [3, 4])) (3 / 5),
      with_similarity (snd (example_entry ''2_1'' ''2'' 1 ''delta'' [5, 0, 0])) 1]"
  by (simp add: rerank_def relevance_closed_form example_entry_def example_words)

theorem rerank_composite_score_witness:
  "map source_content (sources (query example_pipeline ''beta gamma'' None
      \<lparr>minSimilarity = None, topK = None\<rparr>)) = [''gamma'', ''beta'', ''delta'']"
proof -
  have opts: "search_options example_pipeline \<lparr>minSimilarity = None, topK = None\<rparr>
              = \<lparr>minSimilarity = Some (1 / 10), topK = Some 5\<rparr>"
    by (simp add: search_options_def example_pipeline_def new_RAGPipeline_def or_default_def)
  have emb: "generateQueryEmbedding example_pipeline ''beta gamma'' = Vec [1, 0]"
    by (simp add: generateQueryEmbedding_def example_pipeline_def new_RAGPipeline_def example_client_def)
  have st: "vectorStore example_pipeline = example_store" "RAGPipeline.topK example_pipeline = 5"
    by (simp_all add: example_pipeline_def new_RAGPipeline_def or_default_def)
  have "sources (query example_pipeline ''beta gamma'' None \<lparr>minSimilarity = None, topK = None\<rparr>)
        = map to_source (slice0 5 (rerank ''beta gamma''
            (searchWithEmbedding example_store (Vec [1, 0]) None
               \<lparr>minSimilarity = Some (1 / 10), topK = Some 5\<rparr>)))"
    using rerank_composite_score [of "''beta gamma''" _ _ example_pipeline None
            "\<lparr>minSimilarity = None, topK = None\<rparr>"]
    by (simp add: opts emb st example_search)
  then have "sources (query example_pipeline ''beta gamma'' None \<lparr>minSimilarity = None, topK = None\<rparr>)
        = map to_source (slice0 5
           [with_similarity (snd (example_entry ''2_0'' ''2'' 0 ''gamma'' [2])) 1,
            with_similarity (snd (example_entry ''1_1'' ''1'' 1 ''beta'' [3, 4])) (3 / 5),
            with_similarity (snd (example_entry ''2_1'' ''2'' 1 ''delta'' [5, 0, 0])) 1])"
    by (simp only: example_search example_rerank)
  then show ?thesis
    by (simp add: slice0_def to_source_def example_entry_def)
qed

text \<open>
  C3 as stated fails when the query has a stop word: for the query \<^verbatim>\<open>the revenue\<close> the only
  keyword is \<^verbatim>\<open>revenue\<close>, so the stated overlap with the passage \<^verbatim>\<open>revenue\<close> is 1, and
  the program, which counts \<^verbatim>\<open>the\<close> as a query word, has the overlap 1/2.
\<close>

theorem rerank_keyword_overlap_counterexample:
  "extractKeywords ''the revenue'' = [''revenue'']
   \<and> calculateChunkRelevance ''the revenue''
        (with_similarity (snd (example_entry ''3_0'' ''3'' 0 ''revenue'' [1, 0])) 1)
      \<noteq> 4 / 10 * (real (card (set (extractKeywords ''the revenue'') \<inter> wordSet ''revenue''))
                  / real (card (set (extractKeywords ''the revenue''))))
        + 4 / 10 * 1 + 1 / 10 * min (real (length ''revenue'') / 500) 1 + 0"
proof -
  have k: "extractKeywords ''the revenue'' = [''revenue'']" by code_simp
  have w: "card (wordSet ''the revenue'') = 2"
    "card (wordSet ''the revenue'' \<inter> wordSet ''revenue'') = 1"
    "card ({''revenue''} \<inter> wordSet ''revenue'') = 1"
    by code_simp+
  show ?thesis
    by (simp add: k w relevance_closed_form example_entry_def)
qed

section \<open>The four overlap metrics\<close>

lemma sourceWordSet_Union: "sourceWordSet srcs = (\<Union>s\<in>set srcs. wordSet (content s))"
  by (auto simp: sourceWordSet_def wordSet_def)

lemma ratio_unit_interval:
  assumes "a \<le> b"
  shows "0 \<le> real a / real (max b 1) \<and> real a / real (max b 1) \<le> 1"
proof -
  have "real a \<le> real (max b 1)" using assms by simp
  moreover have "0 < real (max b 1)" by simp
  ultimately show ?thesis by (simp add: divide_le_eq_1_pos)
qed

lemma ratio_max_1: "real a / real (max b 1) = (if b = 0 then real a else real a / real b)"
  by (simp add: max_def)

lemma faithfulness_eq:
  "calculateFaithfulness response srcs =
     real (card (wordSet response \<inter> (\<Union>s\<in>set srcs. wordSet (content s))))
     / real (max (card (wordSet response)) 1)"
  by (simp add: calculateFaithfulness_def Let_def Collect_mem_Int sourceWordSet_Union)

lemma answerRelevancy_eq:
  "calculateAnswerRelevancy q response =
     real (card (wordSet q \<inter> wordSet response)) / real (max (card (wordSet q)) 1)"
  by (simp add: calculateAnswerRelevancy_def Let_def Collect_mem_Int)

lemma contextRecall_eq:
  "calculateContextRecall q srcs =
     real (card (wordSet q \<inter> (\<Union>s\<in>set srcs. wordSet (content s))))
     / real (max (card (wordSet q)) 1)"
  by (simp add: calculateContextRecall_def Let_def Collect_mem_Int sourceWordSet_Union)

lemma contextPrecision_eq:
  "calculateContextPrecision q srcs =
     real (length (filter (\<lambda>s. wordSet q \<inter> wordSet (content s) \<noteq> {}) srcs))
     / real (max (length srcs) 1)"
proof -
  have "(0 < card (wordSet q \<inter> wordSet (content s))) = (wordSet q \<inter> wordSet (content s) \<noteq> {})"
    for s :: search_result
    by (simp add: card_gt_0_iff)
  then show ?thesis
    by (simp add: calculateContextPrecision_def Let_def Collect_mem_Int)
qed

lemma metrics_bounds:
  "0 \<le> calculateFaithfulness response srcs \<and> calculateFaithfulness response srcs \<le> 1"
  "0 \<le> calculateAnswerRelevancy q response \<and> calculateAnswerRelevancy q response \<le> 1"
  "0 \<le> calculateContextRecall q srcs \<and> calculateContextRecall q srcs \<le> 1"
  "0 \<le> calculateContextPrecision q srcs \<and> calculateContextPrecision q srcs \<le> 1"
  unfolding faithfulness_eq answerRelevancy_eq contextRecall_eq contextPrecision_eq
  by (intro ratio_unit_interval card_mono finite_wordSet Int_lower1 length_filter_le)+

text \<open>
  C7. For every query, answer and list of retrieved sources, with the words of a text
  being the pieces of the lower-cased text between runs of white space: faithfulness is
  the share of the answer's words found among the words of the sources, answerRelevancy
  the share of the query's words found in the answer, contextRecall the share of the
  query's words found among the words of the sources, contextPrecision the share of the
  sources that have a word in common with the query; a metric whose divisor would be 0 is
  0; each of the four lies between 0 and 1, and overallScore is their arithmetic mean.
\<close>

theorem ragas_metrics_ratios:
  "(let m = calculateRAGASMetrics q response srcs;
        A = wordSet response; Q = wordSet q;
        S = (\<Union>s\<in>set srcs. wordSet (content s))
    in faithfulness m = (if card A = 0 then 0 else real (card (A \<inter> S)) / real (card A))
       \<and> answerRelevancy m = (if card Q = 0 then 0 else real (card (Q \<inter> A)) / real (card Q))
       \<and> contextRecall m = (if card Q = 0 then 0 else real (card (Q \<inter> S)) / real (card Q))
       \<and> contextPrecision m =
           (if length srcs = 0 then 0
            else real (length (filter (\<lambda>s. Q \<inter> wordSet (content s) \<noteq> {}) srcs))
                 / real (length srcs))
       \<and> 0 \<le> faithfulness m \<and> faithfulness m \<le> 1
       \<and> 0 \<le> answerRelevancy m \<and> answerRelevancy m \<le> 1
       \<and> 0 \<le> contextRecall m \<and> contextRecall m \<le> 1
       \<and> 0 \<le> contextPrecision m \<and> contextPrecision m \<le> 1
       \<and> overallScore m
           = (faithfulness m + answerRelevancy m + contextRecall m + contextPrecision m) / 4)"
proof -
  have f: "faithfulness (calculateRAGASMetrics q response srcs) = calculateFaithfulness response srcs"
    and a: "answerRelevancy (calculateRAGASMetrics q response srcs) = calculateAnswerRelevancy q response"
    and r: "contextRecall (calculateRAGASMetrics q response srcs) = calculateContextRecall q srcs"
    and p: "contextPrecision (calculateRAGASMetrics q response srcs) = calculateContextPrecision q srcs"
    and o: "overallScore (calculateRAGASMetrics q response srcs)
            = (calculateFaithfulness response srcs + calculateAnswerRelevancy q response
               + calculateContextRecall q srcs + calculateContextPrecision q srcs) / 4"
    by (simp_all add: calculateRAGASMetrics_def Let_def)
  have cA: "card (wordSet response) \<noteq> 0" and cQ: "card (wordSet q) \<noteq> 0"
    using wordSet_nonempty [of response] wordSet_nonempty [of q] by simp_all
  have mA: "max (card (wordSet response)) 1 = card (wordSet response)"
    and mQ: "max (card (wordSet q)) 1 = card (wordSet q)"
    using card_wordSet_pos [of response] card_wordSet_pos [of q] by linarith+
  have f': "calculateFaithfulness response srcs =
      (if card (wordSet response) = 0 then 0
       else real (card (wordSet response \<inter> (\<Union>s\<in>set srcs. wordSet (content s))))
            / real (card (wordSet response)))"
    unfolding faithfulness_eq mA using cA by simp
  have a': "calculateAnswerRelevancy q response =
      (if card (wordSet q) = 0 then 0
       else real (card (wordSet q \<inter> wordSet response)) / real (card (wordSet q)))"
    unfolding answerRelevancy_eq mQ using cQ by simp
  have r': "calculateContextRecall q srcs =
      (if card (wordSet q) = 0 then 0
       else real (card (wordSet q \<inter> (\<Union>s\<in>set srcs. wordSet (content s))))
            / real (card (wordSet q)))"
    unfolding contextRecall_eq mQ using cQ by simp
  have p': "calculateContextPrecision q srcs =
      (if length srcs = 0 then 0
       else real (length (filter (\<lambda>s. wordSet q \<inter> wordSet (content s) \<noteq> {}) srcs))
            / real (length srcs))"
    by (cases srcs) (simp_all add: contextPrecision_eq max_def)
  note b1 = metrics_bounds(1) [of response srcs] and b2 = metrics_bounds(2) [of q response]
    and b3 = metrics_bounds(3) [of q srcs] and b4 = metrics_bounds(4) [of q srcs]
  show ?thesis
    unfolding Let_def f a r p o
    by (intro conjI f' a' r' p' b1 [THEN conjunct1] b1 [THEN conjunct2] b2 [THEN conjunct1]
          b2 [THEN conjunct2] b3 [THEN conjunct1] b3 [THEN conjunct2] b4 [THEN conjunct1]
          b4 [THEN conjunct2] refl)
qed

theorem ragas_metrics_ratios_witness:
  "faithfulness (calculateRAGASMetrics ''beta gamma'' ''Gamma ray''
      [with_similarity (snd (example_entry ''2_0'' ''2'' 0 ''gamma'' [2])) 1,
       with_similarity (snd (example_entry ''2_1'' ''2'' 1 ''delta'' [5, 0, 0])) 1]) = 1 / 2
   \<and> contextPrecision (calculateRAGASMetrics ''beta gamma'' ''Gamma ray''
      [with_similarity (snd (example_entry ''2_0'' ''2'' 0 ''gamma'' [2])) 1,
       with_similarity (snd (example_entry ''2_1'' ''2'' 1 ''delta'' [5, 0, 0])) 1]) = 1 / 2
   \<and> calculateRAGASMetrics ''beta gamma'' ''Gamma ray'' []
       = \<lparr>faithfulness = 0, answerRelevancy = 1 / 2, contextRecall = 0, contextPrecision = 0,
          overallScore = 1 / 8\<rparr>"
proof -
  let ?srcs = "[with_similarity (snd (example_entry ''2_0'' ''2'' 0 ''gamma'' [2])) 1,
       with_similarity (snd (example_entry ''2_1'' ''2'' 1 ''delta'' [5, 0, 0])) 1]"
  have w: "card (wordSet ''Gamma ray'') = 2" "card (wordSet ''beta gamma'') = 2"
    "card (wordSet ''Gamma ray'' \<inter> (wordSet ''gamma'' \<union> wordSet ''delta'')) = 1"
    "card (wordSet ''beta gamma'' \<inter> wordSet ''Gamma ray'') = 1"
    "wordSet ''beta gamma'' \<inter> wordSet ''gamma'' \<noteq> {}"
    "wordSet ''beta gamma'' \<inter> wordSet ''delta'' = {}"
    by code_simp+
  have "faithfulness (calculateRAGASMetrics ''beta gamma'' ''Gamma ray'' ?srcs) = 1 / 2"
    and "contextPrecision (calculateRAGASMetrics ''beta gamma'' ''Gamma ray'' ?srcs) = 1 / 2"
    using ragas_metrics_ratios [of "''beta gamma''" "''Gamma ray''" ?srcs]
    by (simp_all add: Let_def w example_entry_def)
  moreover have "calculateRAGASMetrics ''beta gamma'' ''Gamma ray'' []
       = \<lparr>faithfulness = 0, answerRelevancy = 1 / 2, contextRecall = 0, contextPrecision = 0,
          overallScore = 1 / 8\<rparr>"
    using ragas_metrics_ratios [of "''beta gamma''" "''Gamma ray''" "[]"]
    by (cases "calculateRAGASMetrics ''beta gamma'' ''Gamma ray'' []") (simp add: Let_def w)
  ultimately show ?thesis by simp
qed

section \<open>Intent classification takes the first matching rule\<close>

lemma starts_with_iff: "starts_with s p \<longleftrightarrow> (\<exists>post. s = p @ post)"
  by (induction s p rule: starts_with.induct) auto

lemma str_includes_iff: "str_includes s p \<longleftrightarrow> (\<exists>pre post. s = pre @ p @ post)"
proof (induction s)
  case Nil
  show ?case by auto
next
  case (Cons c cs)
  show ?case
  proof
    assume "str_includes (c # cs) p"
    then consider "starts_with (c # cs) p" | "str_includes cs p" by auto
    then show "\<exists>pre post. c # cs = pre @ p @ post"
    proof cases
      case 1
      then obtain post where "c # cs = p @ post" by (auto simp: starts_with_iff)
      then have "c # cs = [] @ p @ post" by simp
      then show ?thesis by blast
    next
      case 2
      with Cons obtain pre post where "cs = pre @ p @ post" by blast
      then have "c # cs = (c # pre) @ p @ post" by simp
      then show ?thesis by blast
    qed
  next
    assume "\<exists>pre post. c # cs = pre @ p @ post"
    then obtain pre post where e: "c # cs = pre @ p @ post" by blast
    show "str_includes (c # cs) p"
    proof (cases pre)
      case Nil
      with e have "starts_with (c # cs) p" by (auto simp: starts_with_iff)
      then show ?thesis by simp
    next
      case (Cons a pre')
      with e have "cs = pre' @ p @ post" by simp
      with Cons.IH have "str_includes cs p" by blast
      then show ?thesis by simp
    qed
  qed
qed

lemma pattern_test_iff:
  "pattern_test phrases q \<longleftrightarrow> (\<exists>p\<in>set phrases. \<exists>pre post. toLowerCase q = pre @ p @ post)"
  by (simp add: pattern_test_def list_ex_iff str_includes_iff)

lemma classify_loop_first:
  assumes "i < length rules" "pattern_test (snd (rules ! i)) q"
    and "\<forall>j<i. \<not> pattern_test (snd (rules ! j)) q"
  shows "classify_loop rules q = fst (rules ! i)"
  using assms
proof (induction rules arbitrary: i)
  case Nil
  then show ?case by simp
next
  case (Cons r rules)
  obtain intent pattern where r: "r = (intent, pattern)" by (cases r)
  show ?case
  proof (cases i)
    case 0
    with Cons.prems r show ?thesis by simp
  next
    case (Suc k)
    with Cons.prems have "\<not> pattern_test (snd ((r # rules) ! 0)) q" by blast
    then have no: "\<not> pattern_test pattern q" by (simp add: r)
    have "classify_loop rules q = fst (rules ! k)"
    proof (rule Cons.IH)
      show "k < length rules" using Cons.prems Suc by simp
      show "pattern_test (snd (rules ! k)) q" using Cons.prems Suc by simp
      show "\<forall>j<k. \<not> pattern_test (snd (rules ! j)) q"
      proof (intro allI impI)
        fix j assume "j < k"
        then have "Suc j < i" using Suc by simp
        with Cons.prems have "\<not> pattern_test (snd ((r # rules) ! Suc j)) q" by blast
        then show "\<not> pattern_test (snd (rules ! j)) q" by simp
      qed
    qed
    with no Suc r show ?thesis by simp
  qed
qed

lemma classify_loop_none:
  assumes "\<forall>j<length rules. \<not> pattern_test (snd (rules ! j)) q"
  shows "classify_loop rules q = ''information_request''"
  using assms
proof (induction rules)
  case Nil
  show ?case by simp
next
  case (Cons r rules)
  obtain intent pattern where r: "r = (intent, pattern)" by (cases r)
  from Cons.prems have "\<not> pattern_test (snd ((r # rules) ! 0)) q" by blast
  then have no: "\<not> pattern_test pattern q" by (simp add: r)
  have "\<forall>j<length rules. \<not> pattern_test (snd (rules ! j)) q"
  proof (intro allI impI)
    fix j assume "j < length rules"
    then have "Suc j < length (r # rules)" by simp
    with Cons.prems have "\<not> pattern_test (snd ((r # rules) ! Suc j)) q" by blast
    then show "\<not> pattern_test (snd (rules ! j)) q" by simp
  qed
  with Cons.IH no r show ?case by simp
qed

text \<open>
  C8, amended. The rules are tried in the order factual, comparison, procedural,
  analytical, numerical, visual, temporal, location, causal, list; a rule matches when one
  of its phrases occurs in the query, letter case aside; the label of the first rule that
  matches is returned, and \<^verbatim>\<open>information_request\<close> when none matches. For the query
  \<^verbatim>\<open>What was the revenue?\<close> no rule matches and the intent is \<^verbatim>\<open>information_request\<close>
  (the query \<^verbatim>\<open>What is the revenue?\<close> is \<^verbatim>\<open>factual\<close>).
\<close>

theorem classifyIntent_first_match:
  "map fst intents = [''factual'', ''comparison'', ''procedural'', ''analytical'', ''numerical'',
                      ''visual'', ''temporal'', ''location'', ''causal'', ''list'']
   \<and> pattern_test phrases q = (\<exists>p\<in>set phrases. \<exists>pre post. toLowerCase q = pre @ p @ post)
   \<and> (\<forall>i<length intents.
         pattern_test (snd (intents ! i)) q \<and> (\<forall>j<i. \<not> pattern_test (snd (intents ! j)) q)
         \<longrightarrow> classifyIntent q = fst (intents ! i))
   \<and> ((\<forall>j<length intents. \<not> pattern_test (snd (intents ! j)) q)
        \<longrightarrow> classifyIntent q = ''information_request'')
   \<and> classifyIntent ''What was the revenue?'' = ''information_request''
   \<and> classifyIntent ''What is the revenue?'' = ''factual''"
proof -
  have a: "map fst intents = [''factual'', ''comparison'', ''procedural'', ''analytical'', ''numerical'',
                      ''visual'', ''temporal'', ''location'', ''causal'', ''list'']"
    by (simp add: intents_def)
  have b: "\<forall>i<length intents.
         pattern_test (snd (intents ! i)) q \<and> (\<forall>j<i. \<not> pattern_test (snd (intents ! j)) q)
         \<longrightarrow> classifyIntent q = fst (intents ! i)"
    unfolding classifyIntent_def using classify_loop_first by blast
  have c: "(\<forall>j<length intents. \<not> pattern_test (snd (intents ! j)) q)
        \<longrightarrow> classifyIntent q = ''information_request''"
    unfolding classifyIntent_def using classify_loop_none by blast
  have d: "classifyIntent ''What was the revenue?'' = ''information_request''" by code_simp
  have e: "classifyIntent ''What is the revenue?'' = ''factual''" by code_simp
  from a pattern_test_iff [of phrases q] b c d e show ?thesis by blast
qed

theorem classifyIntent_first_match_witness:
  "classifyIntent ''How to compare charts'' = ''comparison''
   \<and> classifyIntent ''Hello'' = ''information_request''"
proof -
  have t: "pattern_test (snd (intents ! 0)) ''How to compare charts'' = False"
    "pattern_test (snd (intents ! Suc 0)) ''How to compare charts'' = True"
    "fst (intents ! Suc 0) = ''comparison''" "length intents = 10"
    by code_simp+
  have n: "\<forall>j<length intents. \<not> pattern_test (snd (intents ! j)) ''Hello''"
    unfolding all_set_conv_all_nth [symmetric] by code_simp
  from classifyIntent_first_match [of "[]" "''How to compare charts''"]
  have "1 < length intents \<longrightarrow> pattern_test (snd (intents ! 1)) ''How to compare charts''
        \<and> (\<forall>j<1. \<not> pattern_test (snd (intents ! j)) ''How to compare charts'')
        \<longrightarrow> classifyIntent ''How to compare charts'' = fst (intents ! 1)"
    by blast
  then have "classifyIntent ''How to compare charts'' = ''comparison''" by (simp add: t)
  moreover from classifyIntent_first_match [of "[]" "''Hello''"] n
  have "classifyIntent ''Hello'' = ''information_request''" by blast
  ultimately show ?thesis by simp
qed

text \<open>
  C8 as stated fails in its scenario: the query \<^verbatim>\<open>What was the revenue?\<close> is not classified
  as \<^verbatim>\<open>factual\<close>, since the phrase of that rule is \<^verbatim>\<open>what is\<close>.
\<close>

theorem classifyIntent_scenario_counterexample:
  "classifyIntent ''What was the revenue?'' \<noteq> ''factual''"
  by code_simp

section \<open>The empty retrieval\<close>

lemma query_empty:
  assumes "searchWithEmbedding (vectorStore p) (generateQueryEmbedding p q) docs (search_options p f) = []"
  shows "query p q docs f = no_evidence_result q"
  using assms by (simp add: query_def Let_def preprocessQuery_def no_evidence_result_def)

lemma query_nonempty_intent:
  assumes "searchWithEmbedding (vectorStore p) (generateQueryEmbedding p q) docs (search_options p f) \<noteq> []"
  shows "queryIntent (query p q docs f) = classifyIntent q"
  using assms by (simp add: query_def Let_def preprocessQuery_def)

lemma search_empty_index:
  assumes "vectors this = []"
  shows "searchWithEmbedding this qe docs f = []"
  using assms by (simp add: search_as_sort slice0_def)





section \<open>The intent reported on the empty retrieval\<close>

text \<open>
  C10. When the search returns nothing, the intent in the result is the constant
  \<^verbatim>\<open>information_request\<close>, whatever the classification of the query is; when the search
  returns a passage, the intent in the result is the classified intent. A query with
  \<^verbatim>\<open>how to\<close> is classified as \<^verbatim>\<open>procedural\<close>, so the two differ for it.
\<close>

theorem empty_retrieval_intent:
  "(searchWithEmbedding (vectorStore p) (generateQueryEmbedding p q) docs (search_options p f) = []
      \<longrightarrow> queryIntent (query p q docs f) = ''information_request'')
   \<and> (searchWithEmbedding (vectorStore p) (generateQueryEmbedding p q) docs (search_options p f) \<noteq> []
      \<longrightarrow> queryIntent (query p q docs f) = classifyIntent q)
   \<and> classifyIntent ''how to find beta'' = ''procedural''
   \<and> ''procedural'' \<noteq> ''information_request''"
proof -
  have "classifyIntent ''how to find beta'' = ''procedural''" by code_simp
  then show ?thesis
    by (simp add: query_empty query_nonempty_intent no_evidence_result_def)
qed

theorem empty_retrieval_intent_witness:
  "queryIntent (query (new_RAGPipeline \<lparr>vectors = [], documents = [], hf = None\<rparr> None None None None)
      ''how to find beta'' None \<lparr>minSimilarity = None, topK = None\<rparr>) = ''information_request''
   \<and> queryIntent (query example_pipeline ''how to find beta'' None
         \<lparr>minSimilarity = None, topK = None\<rparr>) = ''procedural''"
proof -
  let ?p0 = "new_RAGPipeline \<lparr>vectors = [], documents = [], hf = None\<rparr> None None None None"
  let ?f = "\<lparr>minSimilarity = None, topK = None\<rparr>"
  have e0: "searchWithEmbedding (vectorStore ?p0) (generateQueryEmbedding ?p0 ''how to find beta'')
              None (search_options ?p0 ?f) = []"
    by (rule search_empty_index) (simp add: new_RAGPipeline_def)
  have opts: "search_options example_pipeline ?f = \<lparr>minSimilarity = Some (1 / 10), topK = Some 5\<rparr>"
    by (simp add: search_options_def example_pipeline_def new_RAGPipeline_def or_default_def)
  have emb: "generateQueryEmbedding example_pipeline ''how to find beta'' = Vec [1, 0]"
    by (simp add: generateQueryEmbedding_def example_pipeline_def new_RAGPipeline_def example_client_def)
  have st: "vectorStore example_pipeline = example_store"
    by (simp add: example_pipeline_def new_RAGPipeline_def)
  have e1: "searchWithEmbedding (vectorStore example_pipeline)
              (generateQueryEmbedding example_pipeline ''how to find beta'') None
              (search_options example_pipeline ?f) \<noteq> []"
    by (simp add: opts emb st example_search)
  from empty_retrieval_intent [of ?p0 "''how to find beta''" None ?f] e0
  have "queryIntent (query ?p0 ''how to find beta'' None ?f) = ''information_request''" by blast
  moreover from empty_retrieval_intent [of example_pipeline "''how to find beta''" None ?f] e1
  have "queryIntent (query example_pipeline ''how to find beta'' None ?f) = ''procedural''"
    by (simp del: One_nat_def)
  ultimately show ?thesis by simp
qed

section \<open>Ingestion makes the passages of a document visible one by one\<close>

lemma map_set_fresh: "key \<notin> fst ` set m \<Longrightarrow> map_set key v m = m @ [(key, v)]"
  by (induction m) auto

lemma undigits_digits: "undigits (digits n) = n"
proof (induction n rule: digits.induct)
  case (1 n)
  show ?case
  proof (cases "n < 10")
    case True
    then show ?thesis by (subst digits.simps) (simp add: undigits_def)
  next
    case False
    with 1 have "undigits (digits (n div 10)) = n div 10" by simp
    moreover have "of_char (char_of (48 + n mod 10) :: char) = 48 + n mod 10"
      by simp
    ultimately show ?thesis using False
      by (subst digits.simps) (simp add: undigits_def)
  qed
qed

lemma digits_inj: "digits i = digits j \<Longrightarrow> i = j"
  by (metis undigits_digits)

lemma vectors_storeChunk:
  "vectors (storeChunk s d i c emb) =
     map_set (d @ ''_'' @ digits i)
       \<lparr>vector_entry.id = d @ ''_'' @ digits i, documentId = d, chunkId = i, content = chunk_content c,
        metadata = chunk_metadata c, type = chunk_type c,
        embedding = (case emb of Vec v \<Rightarrow> v | _ \<Rightarrow> VectorStore_simpleHashEmbedding s (chunk_content c)),
        embeddingModel = (case chunk_embeddingModel c of None \<Rightarrow> ''fallback''
                          | Some name \<Rightarrow> if name = [] then ''fallback'' else name)\<rparr>
       (vectors s)"
  by (simp add: storeChunk_def Let_def)

lemma stored_prefix_step:
  assumes sp: "stored_prefix s0 d chunks i s"
    and fresh: "\<forall>j<length chunks. d @ ''_'' @ digits j \<notin> fst ` set (vectors s0)"
    and i: "i < length chunks"
  shows "stored_prefix s0 d chunks (Suc i) (storeChunk s d i (chunks ! i) emb)"
proof -
  from sp obtain es where es: "vectors s = vectors s0 @ es" "length es = i"
    and props: "\<forall>j<i. fst (es ! j) = d @ ''_'' @ digits j \<and> documentId (snd (es ! j)) = d \<and>
                chunkId (snd (es ! j)) = j \<and> content (snd (es ! j)) = chunk_content (chunks ! j)"
    unfolding stored_prefix_def by blast
  let ?key = "d @ ''_'' @ digits i"
  let ?entry = "\<lparr>vector_entry.id = ?key, documentId = d, chunkId = i, content = chunk_content (chunks ! i),
        metadata = chunk_metadata (chunks ! i), type = chunk_type (chunks ! i),
        embedding = (case emb of Vec v \<Rightarrow> v
                     | _ \<Rightarrow> VectorStore_simpleHashEmbedding s (chunk_content (chunks ! i))),
        embeddingModel = (case chunk_embeddingModel (chunks ! i) of None \<Rightarrow> ''fallback''
                          | Some name \<Rightarrow> if name = [] then ''fallback'' else name)\<rparr>"
  have "?key \<notin> fst ` set es"
  proof
    assume "?key \<in> fst ` set es"
    then obtain j where j: "j < length es" "fst (es ! j) = ?key"
      by (auto simp: in_set_conv_nth)
    with es props have "d @ ''_'' @ digits j = d @ ''_'' @ digits i" by auto
    then have "j = i" by (simp add: digits_inj)
    with j es show False by simp
  qed
  moreover have "?key \<notin> fst ` set (vectors s0)" using fresh i by blast
  ultimately have "?key \<notin> fst ` set (vectors s)" by (auto simp: es)
  then have v: "vectors (storeChunk s d i (chunks ! i) emb) = vectors s0 @ (es @ [(?key, ?entry)])"
    by (simp add: vectors_storeChunk map_set_fresh es)
  have "\<forall>j<Suc i. fst ((es @ [(?key, ?entry)]) ! j) = d @ ''_'' @ digits j
          \<and> documentId (snd ((es @ [(?key, ?entry)]) ! j)) = d
          \<and> chunkId (snd ((es @ [(?key, ?entry)]) ! j)) = j
          \<and> content (snd ((es @ [(?key, ?entry)]) ! j)) = chunk_content (chunks ! j)"
  proof (intro allI impI)
    fix j assume "j < Suc i"
    then consider "j < i" | "j = i" by linarith
    then show "fst ((es @ [(?key, ?entry)]) ! j) = d @ ''_'' @ digits j
          \<and> documentId (snd ((es @ [(?key, ?entry)]) ! j)) = d
          \<and> chunkId (snd ((es @ [(?key, ?entry)]) ! j)) = j
          \<and> content (snd ((es @ [(?key, ?entry)]) ! j)) = chunk_content (chunks ! j)"
    proof cases
      case 1
      then show ?thesis using props es by (simp add: nth_append)
    next
      case 2
      then show ?thesis using es by (simp add: nth_append)
    qed
  qed
  with v es show ?thesis unfolding stored_prefix_def
    by (intro exI [of _ "es @ [(?key, ?entry)]"]) simp
qed

lemma run_chunks_inv:
  "stored_prefix s0 d chunks i s \<Longrightarrow> i \<le> length chunks \<Longrightarrow>
   \<forall>j<length chunks. d @ ''_'' @ digits j \<notin> fst ` set (vectors s0) \<Longrightarrow>
   task_inv s0 d chunks i (run_chunks s d chunks i)"
proof (induction s d chunks i rule: run_chunks.induct)
  case (1 this docId chunks i)
  show ?case
  proof (cases "i < length chunks")
    case False
    with 1 show ?thesis by (subst run_chunks.simps) simp
  next
    case lt: True
    show ?thesis
    proof (cases "chunk_embedding (chunks ! i) = Missing")
      case True
      with lt 1 show ?thesis by (subst run_chunks.simps) simp
    next
      case False
      let ?s = "storeChunk this docId i (chunks ! i) (chunk_embedding (chunks ! i))"
      have "stored_prefix s0 docId chunks (Suc i) ?s"
        using "1.prems"(1,3) lt by (rule stored_prefix_step)
      with lt False "1.prems"(3) have "task_inv s0 docId chunks (Suc i) (run_chunks ?s docId chunks (Suc i))"
        by (intro "1.IH") simp_all
      then have "task_inv s0 docId chunks i (run_chunks ?s docId chunks (Suc i))"
        by (cases "run_chunks ?s docId chunks (Suc i)") simp_all
      with lt False show ?thesis by (subst run_chunks.simps) simp
    qed
  qed
qed

lemma task_inv_weaken: "task_inv s0 d chunks (Suc k) t \<Longrightarrow> task_inv s0 d chunks k t"
  by (cases t) simp_all

lemma resume_inv:
  assumes "task_inv s0 d chunks k t"
    and fresh: "\<forall>j<length chunks. d @ ''_'' @ digits j \<notin> fst ` set (vectors s0)"
  shows "task_inv s0 d chunks (Suc k) (resume t)"
proof (cases t)
  case (Finished s)
  with assms show ?thesis by simp
next
  case (Suspended s d' cs j)
  with assms(1) have j: "d' = d" "cs = chunks" "k \<le> j" "j < length chunks"
    "stored_prefix s0 d chunks j s" by simp_all
  let ?s = "storeChunk s d j (chunks ! j) (Vec (generateEmbedding s (chunk_content (chunks ! j))))"
  have "stored_prefix s0 d chunks (Suc j) ?s"
    using j(5) fresh j(4) by (rule stored_prefix_step)
  with j(4) fresh have "task_inv s0 d chunks (Suc j) (run_chunks ?s d chunks (Suc j))"
    by (intro run_chunks_inv) simp_all
  then have "task_inv s0 d chunks (Suc k) (run_chunks ?s d chunks (Suc j))"
    using j(3) by (cases "run_chunks ?s d chunks (Suc j)") simp_all
  then show ?thesis by (simp add: Suspended j)
qed

lemma start_inv:
  assumes fresh: "\<forall>j<length chunks. d @ ''_'' @ digits j \<notin> fst ` set (vectors s0)"
  shows "task_inv s0 d chunks 0 (storeDocument_start s0 d chunks)"
  unfolding storeDocument_start_def
proof (rule run_chunks_inv)
  show "stored_prefix s0 d chunks 0
          (s0\<lparr>documents := map_set d \<lparr>doc_id = d, chunksCount = length chunks\<rparr> (documents s0)\<rparr>)"
    by (simp add: stored_prefix_def)
  show "0 \<le> length chunks" by simp
  show "\<forall>j<length chunks. d @ ''_'' @ digits j \<notin> fst ` set (vectors s0)" by (rule fresh)
qed

lemma resumed_inv:
  assumes fresh: "\<forall>j<length chunks. d @ ''_'' @ digits j \<notin> fst ` set (vectors s0)"
  shows "task_inv s0 d chunks k ((resume ^^ k) (storeDocument_start s0 d chunks))"
proof (induction k)
  case 0
  show ?case using start_inv [OF fresh] by simp
next
  case (Suc k)
  then show ?case using resume_inv [OF _ fresh] by simp
qed

lemma stored_prefix_passages:
  assumes sp: "stored_prefix s0 d chunks i s"
    and new: "\<forall>e\<in>set (vectors s0). documentId (snd e) \<noteq> d"
    and i: "i \<le> length chunks"
  shows "map chunkId (passages_of s d) = [0..<i]
         \<and> map content (passages_of s d) = map chunk_content (take i chunks)"
proof -
  from sp obtain es where es: "vectors s = vectors s0 @ es" "length es = i"
    and props: "\<forall>j<i. fst (es ! j) = d @ ''_'' @ digits j \<and> documentId (snd (es ! j)) = d \<and>
                chunkId (snd (es ! j)) = j \<and> content (snd (es ! j)) = chunk_content (chunks ! j)"
    unfolding stored_prefix_def by blast
  have "filter (\<lambda>v. documentId v = d) (map snd (vectors s0)) = []"
    using new by (auto simp: filter_empty_conv)
  moreover have "filter (\<lambda>v. documentId v = d) (map snd es) = map snd es"
  proof -
    have "documentId (snd e) = d" if "e \<in> set es" for e
    proof -
      from that obtain j where "j < length es" "es ! j = e" by (auto simp: in_set_conv_nth)
      with props es show ?thesis by auto
    qed
    then show ?thesis by (simp add: filter_id_conv)
  qed
  ultimately have p: "passages_of s d = map snd es"
    by (simp add: passages_of_def es)
  have "map chunkId (map snd es) = [0..<i]"
    using props es by (intro nth_equalityI) simp_all
  moreover have "map content (map snd es) = map chunk_content (take i chunks)"
    using props es i by (intro nth_equalityI) simp_all
  ultimately show ?thesis by (simp add: p)
qed

lemma search_within_document:
  "set (searchWithEmbedding s q (Some [d]) f) \<subseteq> scored q ` set (passages_of s d)"
proof
  fix r assume r: "r \<in> set (searchWithEmbedding s q (Some [d]) f)"
  from search_members [OF r] obtain v where v: "v \<in> snd ` set (vectors s)" "r = scored q v"
    "passes q (Some [d]) (or_default (minSimilarity f) (1 / 10)) v"
    by blast
  from v(3) have "documentId v = d" by (simp add: passes_def)
  with v(1) have "v \<in> set (passages_of s d)" by (simp add: passages_of_def)
  with v(2) show "r \<in> scored q ` set (passages_of s d)" by (rule image_eqI)
qed

lemma run_chunks_all_present:
  "\<forall>j<length chunks. i \<le> j \<longrightarrow> chunk_embedding (chunks ! j) \<noteq> Missing \<Longrightarrow>
   \<exists>s'. run_chunks s d chunks i = Finished s'"
proof (induction s d chunks i rule: run_chunks.induct)
  case (1 this docId chunks i)
  show ?case
  proof (cases "i < length chunks")
    case False
    then show ?thesis by (subst run_chunks.simps) simp
  next
    case True
    with "1.prems" have ne: "chunk_embedding (chunks ! i) \<noteq> Missing" by simp
    have "\<exists>s'. run_chunks (storeChunk this docId i (chunks ! i) (chunk_embedding (chunks ! i)))
                  docId chunks (Suc i) = Finished s'"
      using True ne "1.prems" by (intro "1.IH") simp_all
    with True ne show ?thesis by (subst run_chunks.simps) simp
  qed
qed

text \<open>
  C9, amended. When no passage needs an embedding, \<^verbatim>\<open>storeDocument\<close> runs to its end
  without handing control back, and registration is atomic. Otherwise it hands control back
  before each passage that needs one, and the passages of a document that is new to the
  index become visible in order: while the task is suspended before passage \<open>i\<close>, the
  index holds exactly the first \<open>i\<close> passages of the document (none when \<open>i\<close> is 0), and
  when it has finished, after at most as many resumptions as there are passages, the index
  holds all of them. A search restricted to the document returns passages from among those
  that the index holds at that moment.
\<close>

theorem store_document_prefix:
  "((\<forall>j<length chunks. d @ ''_'' @ digits j \<notin> fst ` set (vectors s0))
     \<and> (\<forall>e\<in>set (vectors s0). documentId (snd e) \<noteq> d)
    \<longrightarrow> (case (resume ^^ k) (storeDocument_start s0 d chunks) of
           Suspended s d' cs i \<Rightarrow>
             k \<le> i \<and> i < length chunks
             \<and> map chunkId (passages_of s d) = [0..<i]
             \<and> map content (passages_of s d) = map chunk_content (take i chunks)
         | Finished s \<Rightarrow>
             map chunkId (passages_of s d) = [0..<length chunks]
             \<and> map content (passages_of s d) = map chunk_content chunks)
        \<and> (\<exists>s. (resume ^^ length chunks) (storeDocument_start s0 d chunks) = Finished s))
   \<and> ((\<forall>c\<in>set chunks. chunk_embedding c \<noteq> Missing)
        \<longrightarrow> (\<exists>s. storeDocument_start s0 d chunks = Finished s))
   \<and> set (searchWithEmbedding (store_of ((resume ^^ k) (storeDocument_start s0 d chunks))) q (Some [d]) f)
       \<subseteq> scored q ` set (passages_of (store_of ((resume ^^ k) (storeDocument_start s0 d chunks))) d)"
proof (intro conjI impI)
  assume h: "(\<forall>j<length chunks. d @ ''_'' @ digits j \<notin> fst ` set (vectors s0))
     \<and> (\<forall>e\<in>set (vectors s0). documentId (snd e) \<noteq> d)"
  then have fresh: "\<forall>j<length chunks. d @ ''_'' @ digits j \<notin> fst ` set (vectors s0)"
    and new: "\<forall>e\<in>set (vectors s0). documentId (snd e) \<noteq> d" by simp_all
  let ?t = "(resume ^^ k) (storeDocument_start s0 d chunks)"
  have inv: "task_inv s0 d chunks k ?t" by (rule resumed_inv [OF fresh])
  show "case ?t of
           Suspended s d' cs i \<Rightarrow>
             k \<le> i \<and> i < length chunks
             \<and> map chunkId (passages_of s d) = [0..<i]
             \<and> map content (passages_of s d) = map chunk_content (take i chunks)
         | Finished s \<Rightarrow>
             map chunkId (passages_of s d) = [0..<length chunks]
             \<and> map content (passages_of s d) = map chunk_content chunks"
  proof (cases ?t)
    case (Suspended s d' cs i)
    with inv have i: "k \<le> i" "i < length chunks" "stored_prefix s0 d chunks i s" by simp_all
    from stored_prefix_passages [OF i(3) new] i(1,2) Suspended show ?thesis by simp
  next
    case (Finished s)
    with inv have "stored_prefix s0 d chunks (length chunks) s" by simp
    from stored_prefix_passages [OF this new] Finished show ?thesis by simp
  qed
  let ?u = "(resume ^^ length chunks) (storeDocument_start s0 d chunks)"
  have "task_inv s0 d chunks (length chunks) ?u" by (rule resumed_inv [OF fresh])
  then show "\<exists>s. ?u = Finished s" by (cases ?u) auto
next
  assume "\<forall>c\<in>set chunks. chunk_embedding c \<noteq> Missing"
  then have "\<forall>j<length chunks. 0 \<le> j \<longrightarrow> chunk_embedding (chunks ! j) \<noteq> Missing" by simp
  then show "\<exists>s. storeDocument_start s0 d chunks = Finished s"
    unfolding storeDocument_start_def by (rule run_chunks_all_present)
next
  show "set (searchWithEmbedding (store_of ((resume ^^ k) (storeDocument_start s0 d chunks))) q (Some [d]) f)
       \<subseteq> scored q ` set (passages_of (store_of ((resume ^^ k) (storeDocument_start s0 d chunks))) d)"
    by (rule search_within_document)
qed

lemma digits_small: "digits 0 = ''0''" "digits (Suc 0) = ''1''"
  by code_simp+

lemma example_task_1:
  "resume (storeDocument_start example_new_store ''7'' example_chunks)
   = Suspended (store_of (resume (storeDocument_start example_new_store ''7'' example_chunks)))
       ''7'' example_chunks 1"
  by (simp add: storeDocument_start_def example_new_store_def example_chunks_def run_chunks.simps)

lemma example_store_1:
  "map snd (vectors (store_of (resume (storeDocument_start example_new_store ''7'' example_chunks))))
   = [\<lparr>vector_entry.id = ''7_0'', documentId = ''7'', chunkId = 0, content = ''first'',
       metadata = None, type = ''application/pdf'', embedding = [1, 0],
       embeddingModel = ''fallback''\<rparr>]"
  by (simp add: storeDocument_start_def example_new_store_def example_chunks_def run_chunks.simps
        storeChunk_def generateEmbedding_def example_client_def digits_small Let_def)

theorem store_document_prefix_witness:
  "map chunkId (passages_of (store_of (resume (storeDocument_start example_new_store ''7'' example_chunks))) ''7'')
   = [0]"
proof -
  let ?S = "store_of (resume (storeDocument_start example_new_store ''7'' example_chunks))"
  have t1: "(resume ^^ 1) (storeDocument_start example_new_store ''7'' example_chunks)
            = Suspended ?S ''7'' example_chunks 1"
    using example_task_1 by simp
  have hyp: "(\<forall>j<length example_chunks. ''7'' @ ''_'' @ digits j \<notin> fst ` set (vectors example_new_store))
     \<and> (\<forall>e\<in>set (vectors example_new_store). documentId (snd e) \<noteq> ''7'')"
    by (simp add: example_new_store_def)
  from store_document_prefix [of example_chunks "''7''" example_new_store 1, THEN conjunct1,
          THEN mp, OF hyp, THEN conjunct1]
  have "case Suspended ?S ''7'' example_chunks 1 of
           Suspended s d' cs i \<Rightarrow>
             1 \<le> i \<and> i < length example_chunks
             \<and> map chunkId (passages_of s ''7'') = [0..<i]
             \<and> map content (passages_of s ''7'') = map chunk_content (take i example_chunks)
         | Finished s \<Rightarrow>
             map chunkId (passages_of s ''7'') = [0..<length example_chunks]
             \<and> map content (passages_of s ''7'') = map chunk_content example_chunks"
    unfolding t1 .
  then have "map chunkId (passages_of ?S ''7'') = [0..<1]"
    by (simp only: store_task.case)
  then show ?thesis by simp
qed

text \<open>
  C9 as stated fails: a document of two passages that both need an embedding is stored;
  after the first resumption the task is suspended before the second passage, and a search
  restricted to the document returns the first passage alone.
\<close>

theorem store_document_partial_counterexample:
  "length example_chunks = 2
   \<and> resume (storeDocument_start example_new_store ''7'' example_chunks)
     = Suspended (store_of (resume (storeDocument_start example_new_store ''7'' example_chunks)))
         ''7'' example_chunks 1
   \<and> map content (searchWithEmbedding
        (store_of (resume (storeDocument_start example_new_store ''7'' example_chunks)))
        (Vec [1, 0]) (Some [''7'']) \<lparr>minSimilarity = None, topK = None\<rparr>) = [''first'']"
proof -
  have sim: "calculateCosineSimilarity (Vec [1, 0]) (Vec [1, 0]) = 1"
    by (simp add: cosine_closed_form del: calculateCosineSimilarity.simps)
  have "map content (searchWithEmbedding
        (store_of (resume (storeDocument_start example_new_store ''7'' example_chunks)))
        (Vec [1, 0]) (Some [''7'']) \<lparr>minSimilarity = None, topK = None\<rparr>) = [''first'']"
    by (simp add: search_as_sort example_store_1 or_default_def slice0_def passes_def scored_def sim
          del: calculateCosineSimilarity.simps)
  with example_task_1 show ?thesis by (simp add: example_chunks_def)
qed

end
